theory Spec2Isabelle
  imports Main
begin

section \<open>Values, events and call results\<close>

text \<open>
  The package \<^verbatim>\<open>graceful\<close> is one function, \<^verbatim>\<open>Run(server, pidfile)\<close>, that wires an
  HTTP server, a tableflip upgrader and an oklog run group together.  The model is a
  sequential trace semantics: every call of a collaborator and every log line is an
  event appended to the trace of a \<open>world\<close>, and what a collaborator answers is read
  from the world (an oracle the caller of a theorem chooses freely).  Go's \<^verbatim>\<open>error\<close>
  is \<open>error option\<close> with \<open>None\<close> for \<^verbatim>\<open>nil\<close>.
\<close>

type_synonym error = string

text \<open>\<^verbatim>\<open>time.Duration\<close>: a signed count of nanoseconds.  The code only tests its sign.\<close>

type_synonym duration = int

datatype signal = SIGHUP | SIGINT | SIGTERM

text \<open>The four closures of \<^verbatim>\<open>Run\<close> that run concurrently, by the block that builds them.\<close>

datatype label = HangupWatcher | ServerActor | TerminationActor | ReadyExitActor

datatype coord_effect = Release_marker | Reap_replacement | Fire_exit

datatype event =
    Log_Info string
  | Log_Error string error
  | Log_Fatal string error
  | Call_New string
  | Defer_Stop
  | Go label
  | Call_Listen string
  | Defer_close_ch
  | Call_Notify "signal list"
  | Call_Ready
  | Call_Serve
  | Call_Shutdown "nat option"
  | Call_cancel
  | Call_Close
  | Close_cancelInterrupt
  | Call_signal_Stop
  | Call_Stop
  | Call_Upgrade
  | Close_ch
  | Nil_dereference
  | Effect coord_effect

text \<open>
  How a call ends: it returns (\<open>Cont\<close>), it ends the process through \<^verbatim>\<open>log.Fatalf\<close>
  (\<open>Exit\<close>), it never returns (\<open>Block\<close>), or it panics (\<open>Panic\<close>).

  Modelled from the spec: the logger (package \<^verbatim>\<open>codechimp-io/log\<close>) is not part of the
  sources.  \<^verbatim>\<open>Info\<close>, \<^verbatim>\<open>Infof\<close> and \<^verbatim>\<open>Errorf\<close> write a line and return; \<^verbatim>\<open>Fatalf\<close> writes
  the line and terminates the process at once, so deferred calls do not run.
\<close>

datatype 's step = Cont 's | Exit 's | Block 's | Panic 's

section \<open>The collaborators\<close>

subsection \<open>net/http's server\<close>

text \<open>
  Modelled from the spec: \<^verbatim>\<open>http.Server\<close> (the consumed collaborator interface
  \<^verbatim>\<open>Serve(listener)\<close>, \<^verbatim>\<open>Shutdown(deadline)\<close>, \<^verbatim>\<open>Close()\<close>) is not part of the sources.
  An in-flight connection is the time it still needs, \<open>None\<close> for a connection that
  never finishes.  \<open>serve_result\<close>, \<open>ln_close_err\<close> and \<open>close_err\<close> are oracles:
  what \<^verbatim>\<open>Serve\<close> returns on its own (\<open>None\<close>: it keeps serving), and the errors of
  closing the listener in \<^verbatim>\<open>Shutdown\<close> and in \<^verbatim>\<open>Close\<close>.  \<open>forced\<close> counts the
  connections \<^verbatim>\<open>Close\<close> has cut, \<open>waited\<close> the time spent draining.
\<close>

record http_server =
  Addr :: string
  conns :: "nat option list"
  serve_result :: "error option option"
  ln_close_err :: "error option"
  close_err :: "error option"
  inShutdown :: bool
  forced :: nat
  waited :: nat

definition overdue :: "nat \<Rightarrow> nat option \<Rightarrow> bool" where
  "overdue T c = (case c of None \<Rightarrow> True | Some t \<Rightarrow> T < t)"

definition drain_time :: "nat option list \<Rightarrow> nat" where
  "drain_time cs = foldr (\<lambda>c m. case c of None \<Rightarrow> m | Some t \<Rightarrow> max t m) cs 0"

text \<open>
  Modelled from the spec: \<^verbatim>\<open>Shutdown\<close> stops accepting, then waits until every
  connection has finished or the deadline of its context has passed, whichever is
  first.  Without a deadline it returns only once all connections are done: the first
  component \<open>None\<close> says that it never returns.
\<close>

definition srv_Shutdown :: "nat option \<Rightarrow> http_server \<Rightarrow> error option option \<times> http_server" where
  "srv_Shutdown deadline srv =
     (let s1 = srv\<lparr>inShutdown := True\<rparr> in
      case deadline of
        None \<Rightarrow>
          if None \<in> set (conns srv) then (None, s1)
          else (Some (ln_close_err srv),
                s1\<lparr>conns := [], waited := waited srv + drain_time (conns srv)\<rparr>)
      | Some T \<Rightarrow>
          if filter (overdue T) (conns srv) = []
          then (Some (ln_close_err srv),
                s1\<lparr>conns := [], waited := waited srv + drain_time (conns srv)\<rparr>)
          else (Some (Some ''context deadline exceeded''),
                s1\<lparr>conns := map (map_option (\<lambda>t. t - T)) (filter (overdue T) (conns srv)),
                   waited := waited srv + T\<rparr>))"

text \<open>Modelled from the spec: \<^verbatim>\<open>Close\<close> cuts every connection that is still open.\<close>

definition srv_Close :: "http_server \<Rightarrow> error option \<times> http_server" where
  "srv_Close srv =
     (close_err srv,
      srv\<lparr>inShutdown := True, forced := forced srv + length (conns srv), conns := []\<rparr>)"

text \<open>
  Modelled from the spec: \<^verbatim>\<open>Serve\<close> blocks (\<open>None\<close>) until the listener fails or the
  server is shut down.
\<close>

definition srv_Serve :: "http_server \<Rightarrow> error option option" where
  "srv_Serve srv =
     (if inShutdown srv then Some (Some ''http: Server closed'') else serve_result srv)"

subsection \<open>tableflip's upgrader\<close>

text \<open>
  Modelled from the spec: the Upgrade Coordinator (\<^verbatim>\<open>tableflip.Upgrader\<close>) is not part
  of the sources.  It holds a marker file and possibly a spawned replacement, and has an
  exit signal that fires once.  \<open>ready_result\<close> and \<open>listen_result\<close> are oracles for
  what \<^verbatim>\<open>Ready\<close> and \<^verbatim>\<open>Fds.Listen\<close> answer.
\<close>

record upgrader =
  marker_held :: bool
  replacement :: bool
  exit_fired :: bool
  ready_result :: "error option"
  listen_result :: "error option"

text \<open>
  Modelled from the spec: \<^verbatim>\<open>Stop\<close> releases all resources held by the coordinator
  (marker file, any replacement already spawned) and fires the exit signal.  It has no
  result; what it does is the list of its effects.
\<close>

definition upg_Stop :: "upgrader \<Rightarrow> coord_effect list \<times> upgrader" where
  "upg_Stop u =
     ((if marker_held u then [Release_marker] else []) @
      (if replacement u then [Reap_replacement] else []) @
      (if exit_fired u then [] else [Fire_exit]),
      u\<lparr>marker_held := False, replacement := False, exit_fired := True\<rparr>)"

text \<open>Modelled from the spec: \<^verbatim>\<open>Ready\<close> tells a predecessor, if any, that it may exit.\<close>

definition upg_Ready :: "upgrader \<Rightarrow> error option \<times> upgrader" where
  "upg_Ready u = (ready_result u, u)"

text \<open>
  Modelled from the spec: \<^verbatim>\<open>Upgrade\<close> (the spec's \<^verbatim>\<open>TriggerReplacement\<close>) spawns a new
  generation; when it fails the current generation is unaffected.  The argument is the
  answer of this attempt.
\<close>

definition upg_Upgrade :: "error option \<Rightarrow> upgrader \<Rightarrow> error option \<times> upgrader" where
  "upg_Upgrade r u = (r, if r = None then u\<lparr>replacement := True\<rparr> else u)"

section \<open>The state of the process\<close>

text \<open>
  \<open>new_result\<close> is the oracle for \<^verbatim>\<open>tableflip.New\<close>: \<open>Inl err\<close> is a failure (the
  upgrader returned is \<^verbatim>\<open>nil\<close>), \<open>Inr u\<close> the coordinator it constructs.  \<open>ch\<close> holds
  the termination signals that arrive on the channel \<^verbatim>\<open>ch\<close>; \<open>cancelInterrupt\<close> is
  \<open>True\<close> once the channel of that name is closed.  \<open>ShutdownTimeout\<close> is the package variable,
  read when the server actor is interrupted.
\<close>

record world =
  trace :: "event list"
  ShutdownTimeout :: duration
  server :: http_server
  new_result :: "error + upgrader"
  upg :: upgrader
  ch :: "signal list"
  ch_closed :: bool
  cancelInterrupt :: bool
  notifying :: bool

definition emit :: "event \<Rightarrow> world \<Rightarrow> world" where
  "emit ev w = w\<lparr>trace := trace w @ [ev]\<rparr>"

text \<open>\<^verbatim>\<open>var ShutdownTimeout = 3 * time.Second\<close>: the initial value of the package variable.\<close>

definition ShutdownTimeout_init :: duration where
  "ShutdownTimeout_init = 3 * 1000000000"

section \<open>The run group\<close>

text \<open>
  Modelled from the spec: the Actor Group Supervisor (\<^verbatim>\<open>run.Group\<close> of oklog) is not
  part of the sources.  An actor is a pair (run, interrupt).  A HOL function cannot
  block half way, so the run function is given by the part before its one blocking call
  (\<open>execute_start\<close>) and the blocking call with what follows it (\<open>execute_wait\<close>, \<open>None\<close>
  while it blocks).  \<open>actor_label\<close> only names the closure.
\<close>

record 's actor =
  actor_label :: label
  execute_start :: "'s \<Rightarrow> 's"
  execute_wait :: "'s \<Rightarrow> (error option \<times> 's) option"
  interrupt :: "error option \<Rightarrow> 's \<Rightarrow> 's step"

text \<open>Modelled from the spec: the group is the ordered sequence of registered actors.\<close>

definition group_Add :: "'s actor list \<Rightarrow> 's actor \<Rightarrow> 's actor list" where
  "group_Add g a = g @ [a]"

text \<open>
  The spec leaves the order of the interrupts open (registration order, its reverse, or
  concurrently); the two sequential orders are modelled.
\<close>

datatype order = Registration | Reverse

definition in_order :: "order \<Rightarrow> 'a list \<Rightarrow> 'a list" where
  "in_order ord xs = (case ord of Registration \<Rightarrow> xs | Reverse \<Rightarrow> rev xs)"

text \<open>
  The interrupts, one after the other, with the trigger's error.  The first component
  lists the actors whose interrupt has been invoked; an interrupt that does not return
  is the last one invoked.
\<close>

fun interrupt_all :: "(nat \<times> 's actor) list \<Rightarrow> error option \<Rightarrow> 's \<Rightarrow> nat list \<times> 's step" where
  "interrupt_all [] e s = ([], Cont s)"
| "interrupt_all ((i, a) # as) e s =
     (case interrupt a e s of
        Cont s' \<Rightarrow> (case interrupt_all as e s' of (js, r) \<Rightarrow> (i # js, r))
      | Exit s' \<Rightarrow> ([i], Exit s')
      | Block s' \<Rightarrow> ([i], Block s')
      | Panic s' \<Rightarrow> ([i], Panic s'))"

text \<open>
  Waiting for the run functions of all actors but the trigger \<open>k\<close>, whose run function
  has returned already.  Their errors are dropped.
\<close>

fun join_all :: "(nat \<times> 's actor) list \<Rightarrow> nat \<Rightarrow> 's \<Rightarrow> 's option" where
  "join_all [] k s = Some s"
| "join_all ((i, a) # as) k s =
     (if i = k then join_all as k s
      else case execute_wait a s of
             None \<Rightarrow> None
           | Some (e, s') \<Rightarrow> join_all as k s')"

datatype outcome = Returned "error option" | Exited | Hangs | Panicked

record 's group_result =
  outcome :: outcome
  interrupted :: "nat list"
  final :: 's

text \<open>
  Modelled from the spec: \<^verbatim>\<open>Run\<close> starts every actor, takes the first run function
  that returns as the trigger, invokes every interrupt with the trigger's error, waits
  for the other run functions and returns the trigger's error; with no actor it returns
  \<^verbatim>\<open>nil\<close>.  Which run function returns first is decided by the scheduler: \<open>k\<close> is that
  choice, and \<^verbatim>\<open>Run\<close> hangs when the actor chosen is still blocked.
\<close>

definition group_Run :: "order \<Rightarrow> 's actor list \<Rightarrow> nat \<Rightarrow> 's \<Rightarrow> 's group_result" where
  "group_Run ord actors k s =
     (if actors = [] then \<lparr>outcome = Returned None, interrupted = [], final = s\<rparr>
      else
        let s1 = fold execute_start actors s in
        if length actors \<le> k then \<lparr>outcome = Hangs, interrupted = [], final = s1\<rparr>
        else
          case execute_wait (actors ! k) s1 of
            None \<Rightarrow> \<lparr>outcome = Hangs, interrupted = [], final = s1\<rparr>
          | Some (e, s2) \<Rightarrow>
              (case interrupt_all (in_order ord (enumerate 0 actors)) e s2 of
                 (js, Cont s3) \<Rightarrow>
                   (case join_all (enumerate 0 actors) k s3 of
                      None \<Rightarrow> \<lparr>outcome = Hangs, interrupted = js, final = s3\<rparr>
                    | Some s4 \<Rightarrow> \<lparr>outcome = Returned e, interrupted = js, final = s4\<rparr>)
               | (js, Exit s3) \<Rightarrow> \<lparr>outcome = Exited, interrupted = js, final = s3\<rparr>
               | (js, Block s3) \<Rightarrow> \<lparr>outcome = Hangs, interrupted = js, final = s3\<rparr>
               | (js, Panic s3) \<Rightarrow> \<lparr>outcome = Panicked, interrupted = js, final = s3\<rparr>))"

text \<open>An actor whose run function returns \<open>f e\<close> where it returned \<open>e\<close>.\<close>

definition with_error :: "(error option \<Rightarrow> error option) \<Rightarrow> 's actor \<Rightarrow> 's actor" where
  "with_error f a =
     a\<lparr>execute_wait := (\<lambda>s. case execute_wait a s of
                               None \<Rightarrow> None
                             | Some (e, s') \<Rightarrow> Some (f e, s'))\<rparr>"

definition others_err :: "(nat \<Rightarrow> error option \<Rightarrow> error option) \<Rightarrow> nat \<Rightarrow> 's actor list \<Rightarrow> 's actor list" where
  "others_err f k actors =
     map (\<lambda>(i, a). if i = k then a else with_error (f i) a) (enumerate 0 actors)"

section \<open>The closures of Run\<close>

subsection \<open>The server actor\<close>

definition server_execute_start :: "world \<Rightarrow> world" where
  "server_execute_start w =
     emit Call_Serve (emit (Log_Info ''Listening on [%s] with pid [%d]'') w)"

definition server_execute_wait :: "world \<Rightarrow> (error option \<times> world) option" where
  "server_execute_wait w =
     (case srv_Serve (server w) of None \<Rightarrow> None | Some e \<Rightarrow> Some (e, w))"

text \<open>
  The interrupt of the server actor (lines 57 to 77).  A trigger error ends the process
  in \<^verbatim>\<open>log.Fatalf\<close>.  Otherwise the context gets a deadline only when
  \<^verbatim>\<open>ShutdownTimeout > 0\<close> (\<open>shutdown_deadline\<close>); an error of \<^verbatim>\<open>Shutdown\<close> is logged,
  the one of \<^verbatim>\<open>Close\<close> is assigned to \<^verbatim>\<open>_\<close>; the deferred \<^verbatim>\<open>cancel\<close> runs on return.
\<close>

definition shutdown_deadline :: "world \<Rightarrow> nat option" where
  "shutdown_deadline w =
     (if ShutdownTimeout w > 0 then Some (nat (ShutdownTimeout w)) else None)"

definition server_interrupt :: "error option \<Rightarrow> world \<Rightarrow> world step" where
  "server_interrupt e w =
     (case e of
        Some x \<Rightarrow> Exit (emit (Log_Fatal ''Failed to start HTTP Server: %v'' x) w)
      | None \<Rightarrow>
          (let w1 = emit (Log_Info ''Shutting HTTP Server down'') w;
               deadline = shutdown_deadline w1;
               w2 = emit (Call_Shutdown deadline) w1
           in case srv_Shutdown deadline (server w2) of
                (None, srv) \<Rightarrow> Block (w2\<lparr>server := srv\<rparr>)
              | (Some err, srv) \<Rightarrow>
                  (let w3 = w2\<lparr>server := srv\<rparr>;
                       w4 = (case err of
                               Some x \<Rightarrow> emit (Log_Error ''Error shutting down HTTP server: %s'' x) w3
                             | None \<Rightarrow> w3);
                       w5 = emit Call_Close w4
                   in case srv_Close (server w5) of
                        (_, srv') \<Rightarrow>
                          (let w6 = w5\<lparr>server := srv'\<rparr>
                           in Cont (if deadline = None then w6 else emit Call_cancel w6)))))"

definition server_actor :: "world actor" where
  "server_actor =
     \<lparr>actor_label = ServerActor, execute_start = server_execute_start,
      execute_wait = server_execute_wait, interrupt = server_interrupt\<rparr>"

subsection \<open>The termination-signal actor\<close>

definition termination_execute_start :: "world \<Rightarrow> world" where
  "termination_execute_start w = emit (Call_Notify [SIGINT, SIGTERM]) (w\<lparr>notifying := True\<rparr>)"

definition log_signal :: "signal \<Rightarrow> world \<Rightarrow> world" where
  "log_signal sig w =
     (case sig of
        SIGINT \<Rightarrow> emit (Log_Info ''Received SIGINT, exiting gracefully...'') w
      | SIGTERM \<Rightarrow> emit (Log_Info ''Received SIGTERM, exiting gracefully...'') w
      | SIGHUP \<Rightarrow> w)"

text \<open>
  The \<^verbatim>\<open>select\<close>: a signal on \<^verbatim>\<open>ch\<close> or the closed \<^verbatim>\<open>cancelInterrupt\<close>.  When both are
  ready Go picks either; the model takes the signal.
\<close>

definition termination_execute_wait :: "world \<Rightarrow> (error option \<times> world) option" where
  "termination_execute_wait w =
     (case ch w of
        sig # rest \<Rightarrow> Some (None, log_signal sig (w\<lparr>ch := rest\<rparr>))
      | [] \<Rightarrow> if cancelInterrupt w then Some (None, w) else None)"

text \<open>Closing a channel that is closed already panics.\<close>

definition termination_interrupt :: "error option \<Rightarrow> world \<Rightarrow> world step" where
  "termination_interrupt e w =
     (if cancelInterrupt w then Panic w
      else Cont (emit Call_signal_Stop
                  (emit Close_cancelInterrupt (w\<lparr>cancelInterrupt := True, notifying := False\<rparr>))))"

definition termination_actor :: "world actor" where
  "termination_actor =
     \<lparr>actor_label = TerminationActor, execute_start = termination_execute_start,
      execute_wait = termination_execute_wait, interrupt = termination_interrupt\<rparr>"

subsection \<open>The readiness/exit actor\<close>

text \<open>\<^verbatim>\<open>_ = upg.Ready()\<close>: the answer is bound and dropped.\<close>

definition ready_execute_start :: "world \<Rightarrow> world" where
  "ready_execute_start w =
     (case upg_Ready (upg w) of (_, u) \<Rightarrow> emit Call_Ready (w\<lparr>upg := u\<rparr>))"

text \<open>\<^verbatim>\<open><-upg.Exit(); return nil\<close>\<close>

definition ready_execute_wait :: "world \<Rightarrow> (error option \<times> world) option" where
  "ready_execute_wait w = (if exit_fired (upg w) then Some (None, w) else None)"

definition call_Stop :: "world \<Rightarrow> world" where
  "call_Stop w =
     (case upg_Stop (upg w) of
        (effs, u) \<Rightarrow> w\<lparr>upg := u, trace := trace w @ Call_Stop # map Effect effs\<rparr>)"

definition ready_interrupt :: "error option \<Rightarrow> world \<Rightarrow> world step" where
  "ready_interrupt e w = Cont (call_Stop w)"

definition ready_exit_actor :: "world actor" where
  "ready_exit_actor =
     \<lparr>actor_label = ReadyExitActor, execute_start = ready_execute_start,
      execute_wait = ready_execute_wait, interrupt = ready_interrupt\<rparr>"

subsection \<open>The hang-up watcher\<close>

text \<open>
  The body of \<^verbatim>\<open>for range sig\<close> (lines 33 to 39) for one received \<^verbatim>\<open>SIGHUP\<close>; \<open>r\<close> is
  what this call of \<^verbatim>\<open>upg.Upgrade\<close> answers.
\<close>

definition hangup_iteration :: "error option \<Rightarrow> world \<Rightarrow> world" where
  "hangup_iteration r w =
     (let w1 = emit (Log_Info ''Received SIGHUP, restaring gracefully...'') w;
          w2 = emit Call_Upgrade w1
      in case upg_Upgrade r (upg w2) of
           (err, u) \<Rightarrow>
             (case err of
                Some x \<Rightarrow> emit (Log_Error ''Upgrade failed: %v'' x) (w2\<lparr>upg := u\<rparr>)
              | None \<Rightarrow> w2\<lparr>upg := u\<rparr>))"

text \<open>
  The loop over the signals received so far, one answer of \<^verbatim>\<open>Upgrade\<close> per signal.  The
  channel \<^verbatim>\<open>sig\<close> is never closed, so the loop has no exit: after the list the goroutine
  waits for the next signal.
\<close>

fun hangup_watcher :: "error option list \<Rightarrow> world \<Rightarrow> world" where
  "hangup_watcher [] w = w"
| "hangup_watcher (r # rs) w = hangup_watcher rs (hangup_iteration r w)"

section \<open>Run\<close>

datatype ending = Returns | Os_Exit | Crash | Never

record run_result =
  ending :: ending
  group :: "world actor list"
  group_result :: "world group_result option"
  world_after :: world

definition close_ch :: "world \<Rightarrow> world" where
  "close_ch w = emit Close_ch (w\<lparr>ch_closed := True\<rparr>)"

text \<open>
  \<^verbatim>\<open>Run(server, pidfile)\<close>, lines 19 to 136; the server is \<open>server w0\<close>.  \<open>ord\<close> and \<open>k\<close> are
  the scheduler's choices handed to the group.  When \<^verbatim>\<open>tableflip.New\<close> fails the code
  logs with \<^verbatim>\<open>log.Errorf\<close> and goes on with the \<^verbatim>\<open>nil\<close> upgrader: the deferred \<^verbatim>\<open>Stop\<close> is
  registered, the hang-up watcher is started, and \<^verbatim>\<open>upg.Fds\<close> dereferences \<^verbatim>\<open>nil\<close>.
  The model ends at that panic.  The two channels are made by \<open>Run\<close>, so they are open
  when the group starts; the signals in \<open>ch w0\<close> are those that will arrive.  The
  deferred calls run when \<^verbatim>\<open>Run\<close> returns (last registered first), not when the
  process ends in \<^verbatim>\<open>log.Fatalf\<close>.
\<close>

definition Run :: "order \<Rightarrow> nat \<Rightarrow> string \<Rightarrow> world \<Rightarrow> run_result" where
  "Run ord k pidfile w0 =
     (let w1 = emit (Call_New pidfile) w0 in
      case new_result w1 of
        Inl err \<Rightarrow>
          (let w2 = emit (Log_Error ''Creating graceful upgrader failed: %v'' err) w1;
               w3 = emit Defer_Stop w2;
               w4 = emit (Go HangupWatcher) w3
           in \<lparr>ending = Crash, group = [], group_result = None,
               world_after = emit Nil_dereference w4\<rparr>)
      | Inr u \<Rightarrow>
          (let w2 = w1\<lparr>upg := u\<rparr>;
               w3 = emit Defer_Stop w2;
               w4 = emit (Go HangupWatcher) w3;
               w5 = emit (Call_Listen (Addr (server w4))) w4
           in case listen_result (upg w5) of
                Some err \<Rightarrow>
                  \<lparr>ending = Os_Exit, group = [], group_result = None,
                   world_after = emit (Log_Fatal ''Error creating new listener: %s'' err) w5\<rparr>
              | None \<Rightarrow>
                  (let g1 = group_Add [] server_actor;
                       w6 = (emit Defer_close_ch w5)\<lparr>ch_closed := False, cancelInterrupt := False\<rparr>;
                       g2 = group_Add g1 termination_actor;
                       g3 = group_Add g2 ready_exit_actor;
                       r = group_Run ord g3 k w6
                   in case outcome r of
                        Returned None \<Rightarrow>
                          \<lparr>ending = Returns, group = g3, group_result = Some r,
                           world_after = call_Stop (close_ch (final r))\<rparr>
                      | Returned (Some err) \<Rightarrow>
                          \<lparr>ending = Os_Exit, group = g3, group_result = Some r,
                           world_after = emit (Log_Fatal ''Error starting service: %s'' err) (final r)\<rparr>
                      | Exited \<Rightarrow>
                          \<lparr>ending = Os_Exit, group = g3, group_result = Some r,
                           world_after = final r\<rparr>
                      | Hangs \<Rightarrow>
                          \<lparr>ending = Never, group = g3, group_result = Some r,
                           world_after = final r\<rparr>
                      | Panicked \<Rightarrow>
                          \<lparr>ending = Crash, group = g3, group_result = Some r,
                           world_after = call_Stop (close_ch (final r))\<rparr>)))"

text \<open>The group that \<open>Run\<close> builds with its three calls of \<^verbatim>\<open>group.Add\<close>.\<close>

definition run_group :: "world actor list" where
  "run_group =
     group_Add (group_Add (group_Add [] server_actor) termination_actor) ready_exit_actor"

section \<open>Notions used to state the properties\<close>

text \<open>
  The world in which \<open>Run\<close> runs the group, when \<^verbatim>\<open>tableflip.New\<close> has constructed \<open>u\<close>
  and the listener could be created.
\<close>

definition at_group :: "string \<Rightarrow> upgrader \<Rightarrow> world \<Rightarrow> world" where
  "at_group pidfile u w =
     w\<lparr>upg := u,
       trace := trace w @ [Call_New pidfile, Defer_Stop, Go HangupWatcher,
                             Call_Listen (Addr (server w)), Defer_close_ch],
       ch_closed := False, cancelInterrupt := False\<rparr>"

definition is_Log_Error :: "event \<Rightarrow> bool" where
  "is_Log_Error ev = (case ev of Log_Error _ _ \<Rightarrow> True | _ \<Rightarrow> False)"

definition is_Log_Fatal :: "event \<Rightarrow> bool" where
  "is_Log_Fatal ev = (case ev of Log_Fatal _ _ \<Rightarrow> True | _ \<Rightarrow> False)"

text \<open>What one received \<^verbatim>\<open>SIGHUP\<close> adds to the trace, by the answer of \<^verbatim>\<open>Upgrade\<close>.\<close>

definition hangup_events :: "error option \<Rightarrow> event list" where
  "hangup_events r =
     [Log_Info ''Received SIGHUP, restaring gracefully...'', Call_Upgrade] @
     (case r of None \<Rightarrow> [] | Some x \<Rightarrow> [Log_Error ''Upgrade failed: %v'' x])"

text \<open>The world in which closing the listener fails with \<open>a\<close> in \<^verbatim>\<open>Shutdown\<close> and \<open>b\<close> in \<^verbatim>\<open>Close\<close>.\<close>

definition shutdown_errors :: "error option \<Rightarrow> error option \<Rightarrow> world \<Rightarrow> world" where
  "shutdown_errors a b w = w\<lparr>server := (server w)\<lparr>ln_close_err := a, close_err := b\<rparr>\<rparr>"

text \<open>
  What \<^verbatim>\<open>Shutdown\<close> answers when the server actor is interrupted in this world: \<open>None\<close>
  when it never returns, else its error.
\<close>

definition shutdown_answer :: "world \<Rightarrow> error option option" where
  "shutdown_answer w = fst (srv_Shutdown (shutdown_deadline w) (server w))"

text \<open>The world in which \<^verbatim>\<open>Ready\<close> answers \<open>r\<close>.\<close>

definition ready_answers :: "error option \<Rightarrow> world \<Rightarrow> world" where
  "ready_answers r w = w\<lparr>upg := (upg w)\<lparr>ready_result := r\<rparr>\<rparr>"

text \<open>
  Two worlds agree on everything the control flow of the three actors reads: the
  timeout, the connections, the state of the server, the channels and the exit signal.
  The traces, the counters and the answers of \<^verbatim>\<open>Ready\<close>, \<^verbatim>\<open>Shutdown\<close> and \<^verbatim>\<open>Close\<close> may
  differ.
\<close>

definition same_control :: "world \<Rightarrow> world \<Rightarrow> bool" where
  "same_control w w' \<longleftrightarrow>
     ShutdownTimeout w = ShutdownTimeout w' \<and>
     conns (server w) = conns (server w') \<and>
     serve_result (server w) = serve_result (server w') \<and>
     inShutdown (server w) = inShutdown (server w') \<and>
     ch w = ch w' \<and>
     cancelInterrupt w = cancelInterrupt w' \<and>
     exit_fired (upg w) = exit_fired (upg w')"

text \<open>
  Two actors are related when their functions take related states to related states,
  with the same kind of result; the errors their run functions return are related by \<open>E\<close>.
\<close>

definition actor_rel ::
  "(error option \<Rightarrow> error option \<Rightarrow> bool) \<Rightarrow> ('s \<Rightarrow> 's \<Rightarrow> bool) \<Rightarrow> 's actor \<Rightarrow> 's actor \<Rightarrow> bool" where
  "actor_rel E R a b \<longleftrightarrow>
     (\<forall>s t. R s t \<longrightarrow> R (execute_start a s) (execute_start b t)) \<and>
     (\<forall>s t. R s t \<longrightarrow> rel_option (rel_prod E R) (execute_wait a s) (execute_wait b t)) \<and>
     (\<forall>e s t. R s t \<longrightarrow> rel_step R (interrupt a e s) (interrupt b e t))"

definition paired ::
  "(nat \<Rightarrow> error option \<Rightarrow> error option \<Rightarrow> bool) \<Rightarrow> ('s \<Rightarrow> 's \<Rightarrow> bool) \<Rightarrow>
   nat \<times> 's actor \<Rightarrow> nat \<times> 's actor \<Rightarrow> bool" where
  "paired E R p q \<longleftrightarrow> fst p = fst q \<and> actor_rel (E (fst p)) R (snd p) (snd q)"

text \<open>The same world, and its trace has the event.\<close>

definition keeps :: "event \<Rightarrow> world \<Rightarrow> world \<Rightarrow> bool" where
  "keeps ev w w' \<longleftrightarrow> w' = w \<and> ev \<in> set (trace w)"

text \<open>A coordinator that holds nothing and whose exit signal has fired.\<close>

definition stopped :: "upgrader \<Rightarrow> bool" where
  "stopped u \<longleftrightarrow> \<not> marker_held u \<and> \<not> replacement u \<and> exit_fired u"

text \<open>The trace of \<open>w\<close> continues the one of \<open>w0\<close>.\<close>

definition since :: "world \<Rightarrow> world \<Rightarrow> bool" where
  "since w0 w \<longleftrightarrow> (\<exists>tl. trace w = trace w0 @ tl)"

text \<open>The coordinator is stopped, and \<^verbatim>\<open>Stop\<close> has been called since \<open>w0\<close>.\<close>

definition after_Stop :: "world \<Rightarrow> world \<Rightarrow> bool" where
  "after_Stop w0 w \<longleftrightarrow>
     stopped (upg w) \<and> (\<exists>tl. trace w = trace w0 @ tl \<and> Call_Stop \<in> set tl)"

text \<open>Every run function of the group of \<open>Run\<close> can return: what the interrupts bring about.\<close>

definition released :: "world \<Rightarrow> bool" where
  "released w \<longleftrightarrow> inShutdown (server w) \<and> cancelInterrupt w \<and> exit_fired (upg w)"

text \<open>\<^verbatim>\<open>Shutdown\<close> returns: there is a deadline, or every connection finishes.\<close>

definition drains :: "world \<Rightarrow> bool" where
  "drains w \<longleftrightarrow> 0 < ShutdownTimeout w \<or> None \<notin> set (conns (server w))"

section \<open>Concrete worlds\<close>

definition upg0 :: upgrader where
  "upg0 = \<lparr>marker_held = True, replacement = False, exit_fired = False,
           ready_result = None, listen_result = None\<rparr>"

text \<open>
  A server with three connections in flight: one done after a microsecond, one that
  needs five seconds, one that never finishes.
\<close>

definition server0 :: http_server where
  "server0 = \<lparr>Addr = '':9000'', conns = [Some 1000, Some 5000000000, None],
              serve_result = None, ln_close_err = None, close_err = None,
              inShutdown = False, forced = 0, waited = 0\<rparr>"

definition world0 :: world where
  "world0 = \<lparr>trace = [], ShutdownTimeout = ShutdownTimeout_init, server = server0,
             new_result = Inr upg0, upg = upg0, ch = [], ch_closed = False,
             cancelInterrupt = False, notifying = False\<rparr>"

text \<open>A \<^verbatim>\<open>SIGTERM\<close> arrives.\<close>

definition sigterm_world :: world where
  "sigterm_world = world0\<lparr>ch := [SIGTERM]\<rparr>"

text \<open>The listener breaks: \<^verbatim>\<open>Serve\<close> returns an error by itself.\<close>

definition serve_fails_world :: world where
  "serve_fails_world = world0\<lparr>server := server0\<lparr>serve_result := Some (Some ''accept failed'')\<rparr>\<rparr>"

text \<open>\<^verbatim>\<open>tableflip.New\<close> fails.\<close>

definition new_fails_world :: world where
  "new_fails_world = world0\<lparr>new_result := Inl ''pid file unwritable''\<rparr>"

text \<open>A \<^verbatim>\<open>SIGINT\<close> arrives, no connection is in flight, and \<^verbatim>\<open>Close\<close> answers an error.\<close>

definition close_fails_world :: world where
  "close_fails_world =
     world0\<lparr>ch := [SIGINT], server := server0\<lparr>conns := [], close_err := Some ''close failed''\<rparr>\<rparr>"

text \<open>A successor is ready (the exit signal has fired) and the timeout is switched off.\<close>

definition exit_world :: world where
  "exit_world =
     world0\<lparr>ShutdownTimeout := 0, new_result := Inr (upg0\<lparr>exit_fired := True\<rparr>),
            upg := upg0\<lparr>exit_fired := True\<rparr>,
            server := server0\<lparr>conns := [Some 1000, Some 5000000000]\<rparr>\<rparr>"

section \<open>Evaluation\<close>

lemmas actor_defs =
  server_actor_def termination_actor_def ready_exit_actor_def
  server_execute_start_def server_execute_wait_def server_interrupt_def
  termination_execute_start_def termination_execute_wait_def termination_interrupt_def
  log_signal_def ready_execute_start_def ready_execute_wait_def ready_interrupt_def
  call_Stop_def close_ch_def srv_Shutdown_def srv_Close_def srv_Serve_def upg_Stop_def
  upg_Ready_def shutdown_deadline_def overdue_def drain_time_def emit_def

lemmas world_defs =
  upg0_def server0_def world0_def sigterm_world_def serve_fails_world_def
  new_fails_world_def close_fails_world_def exit_world_def ShutdownTimeout_init_def

lemma run_group_eq: "run_group = [server_actor, termination_actor, ready_exit_actor]"
  by (simp add: run_group_def group_Add_def)

lemma enumerate3: "enumerate 0 [a, b, c] = [(0, a), (Suc 0, b), (2, c)]"
  by (simp add: enumerate_eq_zip upt_rec)

lemma Run_at_group:
  assumes "new_result w = Inr u" and "listen_result u = None"
  shows "Run ord k pidfile w =
     (let r = group_Run ord run_group k (at_group pidfile u w)
      in case outcome r of
           Returned None \<Rightarrow>
             \<lparr>ending = Returns, group = run_group, group_result = Some r,
              world_after = call_Stop (close_ch (final r))\<rparr>
         | Returned (Some err) \<Rightarrow>
             \<lparr>ending = Os_Exit, group = run_group, group_result = Some r,
              world_after = emit (Log_Fatal ''Error starting service: %s'' err) (final r)\<rparr>
         | Exited \<Rightarrow>
             \<lparr>ending = Os_Exit, group = run_group, group_result = Some r,
              world_after = final r\<rparr>
         | Hangs \<Rightarrow>
             \<lparr>ending = Never, group = run_group, group_result = Some r,
              world_after = final r\<rparr>
         | Panicked \<Rightarrow>
             \<lparr>ending = Crash, group = run_group, group_result = Some r,
              world_after = call_Stop (close_ch (final r))\<rparr>)"
  using assms unfolding run_group_def
  by (simp add: Run_def at_group_def emit_def Let_def)

lemma Run_listen_fails:
  assumes "new_result w = Inr u" and "listen_result u = Some err"
  shows "Run ord k pidfile w =
     \<lparr>ending = Os_Exit, group = [], group_result = None,
      world_after =
        emit (Log_Fatal ''Error creating new listener: %s'' err)
          (w\<lparr>upg := u,
             trace := trace w @ [Call_New pidfile, Defer_Stop, Go HangupWatcher,
                                  Call_Listen (Addr (server w))]\<rparr>)\<rparr>"
  using assms by (simp add: Run_def emit_def Let_def)

section \<open>The run group: every interrupt once\<close>

lemma interrupt_all_Cont:
  "interrupt_all xs e s = (js, Cont s') \<Longrightarrow> js = map fst xs"
proof (induction xs arbitrary: s js)
  case Nil
  then show ?case by simp
next
  case (Cons p xs)
  obtain i a where p: "p = (i, a)" by (cases p)
  from Cons.prems p obtain s1 where s1: "interrupt a e s = Cont s1"
    by (cases "interrupt a e s") (auto split: prod.splits)
  with Cons.prems p obtain js' where js: "interrupt_all xs e s1 = (js', Cont s')" "js = i # js'"
    by (auto split: prod.splits)
  from Cons.IH[OF js(1)] js(2) p show ?case by simp
qed

lemma map_fst_in_order:
  "map fst (in_order ord (enumerate 0 xs)) = in_order ord [0..<length xs]"
  by (cases ord) (simp_all add: in_order_def rev_map[symmetric])

lemma count_list_upt:
  "count_list [m..<n] i = (if m \<le> i \<and> i < n then 1 else 0)"
  by (induction n) auto

lemma count_list_rev_eq: "count_list (rev xs) i = count_list xs i"
  by (induction xs) auto

lemma count_list_in_order: "count_list (in_order ord xs) i = count_list xs i"
  by (cases ord) (simp_all add: in_order_def count_list_rev_eq)

lemma group_Run_returns:
  assumes "actors \<noteq> []" and "k < length actors"
    and "execute_wait (actors ! k) (fold execute_start actors s) = Some (e, s2)"
    and "interrupt_all (in_order ord (enumerate 0 actors)) e s2 = (js, Cont s3)"
    and "join_all (enumerate 0 actors) k s3 = Some s4"
  shows "group_Run ord actors k s =
           \<lparr>outcome = Returned e, interrupted = in_order ord [0..<length actors], final = s4\<rparr>"
proof -
  have "js = in_order ord [0..<length actors]"
    using interrupt_all_Cont[OF assms(4)] by (simp add: map_fst_in_order)
  with assms show ?thesis by (simp add: group_Run_def)
qed

text \<open>
  C1, as amended.  Take a group of at least one actor in which the run function of actor
  \<open>k\<close> returns first, every interrupt returns (the interrupts end in \<open>Cont\<close>) and every
  other run function returns once interrupted (the join succeeds).  Then \<open>Run\<close> returns
  the trigger's error, and by then the interrupt of every registered actor has been
  invoked exactly once and no other index appears, in either order of the interrupts
  and whichever actor \<open>k\<close> is.
\<close>

theorem group_Run_interrupts_each_once:
  assumes "actors \<noteq> []" and "k < length actors"
    and "execute_wait (actors ! k) (fold execute_start actors s) = Some (e, s2)"
    and "interrupt_all (in_order ord (enumerate 0 actors)) e s2 = (js, Cont s3)"
    and "join_all (enumerate 0 actors) k s3 = Some s4"
  shows "outcome (group_Run ord actors k s) = Returned e \<and>
         length (interrupted (group_Run ord actors k s)) = length actors \<and>
         (\<forall>i. count_list (interrupted (group_Run ord actors k s)) i =
              (if i < length actors then 1 else 0))"
proof -
  have len: "length (in_order ord [0..<length actors]) = length actors"
    by (cases ord) (simp_all add: in_order_def)
  show ?thesis
    unfolding group_Run_returns[OF assms] using len
    by (simp add: count_list_in_order count_list_upt)
qed

lemma sigterm_run:
  "\<exists>s2 js s3 s4.
     execute_wait (run_group ! 1) (fold execute_start run_group sigterm_world) = Some (None, s2) \<and>
     interrupt_all (in_order Registration (enumerate 0 run_group)) None s2 = (js, Cont s3) \<and>
     join_all (enumerate 0 run_group) 1 s3 = Some s4"
  by (simp add: run_group_eq enumerate3 in_order_def actor_defs world_defs Let_def)

text \<open>
  The theorem at the group of \<open>Run\<close> when a \<^verbatim>\<open>SIGTERM\<close> arrives: the termination-signal
  actor is the trigger, with error \<^verbatim>\<open>nil\<close>.
\<close>

theorem group_Run_interrupts_each_once_witness:
  "run_group \<noteq> [] \<and> 1 < length run_group \<and>
   outcome (group_Run Registration run_group 1 sigterm_world) = Returned None \<and>
   length (interrupted (group_Run Registration run_group 1 sigterm_world)) = length run_group \<and>
   (\<forall>i. count_list (interrupted (group_Run Registration run_group 1 sigterm_world)) i =
        (if i < length run_group then 1 else 0))"
proof -
  have ne: "run_group \<noteq> []" and k: "1 < length run_group"
    by (simp_all add: run_group_eq)
  obtain s2 js s3 s4 where
    "execute_wait (run_group ! 1) (fold execute_start run_group sigterm_world) = Some (None, s2)"
    "interrupt_all (in_order Registration (enumerate 0 run_group)) None s2 = (js, Cont s3)"
    "join_all (enumerate 0 run_group) 1 s3 = Some s4"
    using sigterm_run by blast
  from group_Run_interrupts_each_once[OF ne k this] ne k show ?thesis by simp
qed

text \<open>
  C1 as stated fails on the group of \<open>Run\<close> when the server actor is the trigger: the
  error of \<^verbatim>\<open>Serve\<close> is not \<^verbatim>\<open>nil\<close>, and the interrupt of the server actor ends the
  process in \<^verbatim>\<open>log.Fatalf\<close>.  In registration order only that interrupt has been
  invoked; in reverse order all three have, and still \<open>Run\<close> does not return.
\<close>

theorem server_trigger_counterexample:
  "outcome (group_Run Registration run_group 0 serve_fails_world) = Exited \<and>
   interrupted (group_Run Registration run_group 0 serve_fails_world) = [0] \<and>
   outcome (group_Run Reverse run_group 0 serve_fails_world) = Exited \<and>
   interrupted (group_Run Reverse run_group 0 serve_fails_world) = [2, 1, 0] \<and>
   ending (Run Registration 0 ''graceful.pid'' serve_fails_world) = Os_Exit \<and>
   ending (Run Reverse 0 ''graceful.pid'' serve_fails_world) = Os_Exit"
  by (simp add: Run_def group_Add_def group_Run_def run_group_eq enumerate3 in_order_def
      actor_defs world_defs Let_def)

section \<open>The run group: related actors give related runs\<close>

text \<open>
  If the actors of two groups are related position by position, and the trigger's run
  function returns the same error in both, the two runs end alike: same outcome, same
  interrupts, related final states.
\<close>

lemma interrupt_all_rel:
  assumes "list_all2 (paired E R) xs ys" and "R s t"
  shows "fst (interrupt_all xs e s) = fst (interrupt_all ys e t) \<and>
         rel_step R (snd (interrupt_all xs e s)) (snd (interrupt_all ys e t))"
  using assms
proof (induction xs ys arbitrary: s t rule: list_all2_induct)
  case Nil
  then show ?case by simp
next
  case (Cons p xs q ys)
  obtain i a where p: "p = (i, a)" by (cases p)
  obtain j b where q: "q = (j, b)" by (cases q)
  from Cons.hyps(1) p q have ij: "j = i" and resp: "actor_rel (E i) R a b"
    by (auto simp add: paired_def)
  from resp Cons.prems have st: "rel_step R (interrupt a e s) (interrupt b e t)"
    by (simp add: actor_rel_def)
  show ?case
  proof (cases "interrupt a e s")
    case (Cont s')
    with st obtain t' where t': "interrupt b e t = Cont t'" "R s' t'"
      by (cases "interrupt b e t") auto
    from Cons.IH[OF t'(2)] show ?thesis
      using Cont t' p q ij by (simp add: split_beta)
  next
    case (Exit s')
    with st obtain t' where "interrupt b e t = Exit t'" "R s' t'"
      by (cases "interrupt b e t") auto
    then show ?thesis using Exit p q ij by simp
  next
    case (Block s')
    with st obtain t' where "interrupt b e t = Block t'" "R s' t'"
      by (cases "interrupt b e t") auto
    then show ?thesis using Block p q ij by simp
  next
    case (Panic s')
    with st obtain t' where "interrupt b e t = Panic t'" "R s' t'"
      by (cases "interrupt b e t") auto
    then show ?thesis using Panic p q ij by simp
  qed
qed

lemma join_all_rel:
  assumes "list_all2 (paired E R) xs ys" and "R s t"
  shows "rel_option R (join_all xs k s) (join_all ys k t)"
  using assms
proof (induction xs ys arbitrary: s t rule: list_all2_induct)
  case Nil
  then show ?case by simp
next
  case (Cons p xs q ys)
  obtain i a where p: "p = (i, a)" by (cases p)
  obtain j b where q: "q = (j, b)" by (cases q)
  from Cons.hyps(1) p q have ij: "j = i" and resp: "actor_rel (E i) R a b"
    by (auto simp add: paired_def)
  show ?case
  proof (cases "i = k")
    case True
    then show ?thesis using Cons.IH[OF Cons.prems] p q ij by simp
  next
    case False
    from resp Cons.prems
    have w: "rel_option (rel_prod (E i) R) (execute_wait a s) (execute_wait b t)"
      by (simp add: actor_rel_def)
    show ?thesis
    proof (cases "execute_wait a s")
      case None
      with w have "execute_wait b t = None" by (cases "execute_wait b t") auto
      then show ?thesis using None False p q ij by simp
    next
      case (Some r)
      obtain e s' where r: "r = (e, s')" by (cases r)
      from w Some r obtain e' t' where t': "execute_wait b t = Some (e', t')" "R s' t'"
        by (cases "execute_wait b t") auto
      from Cons.IH[OF t'(2)] show ?thesis
        using Some r t' False p q ij by simp
    qed
  qed
qed

lemma fold_start_rel:
  assumes "list_all2 (paired E R) xs ys" and "R s t"
  shows "R (fold (execute_start \<circ> snd) xs s) (fold (execute_start \<circ> snd) ys t)"
  using assms
  by (induction xs ys arbitrary: s t rule: list_all2_induct)
     (auto simp: paired_def actor_rel_def)

lemma fold_snd_enumerate:
  "fold (f \<circ> snd) (enumerate n xs) s = fold f xs s"
  by (induction xs arbitrary: n s) auto

lemma paired_enumerate:
  assumes "length as = length bs"
    and "\<And>i. i < length as \<Longrightarrow> actor_rel (E i) R (as ! i) (bs ! i)"
  shows "list_all2 (paired E R) (enumerate 0 as) (enumerate 0 bs)"
  using assms by (simp add: list_all2_conv_all_nth nth_enumerate_eq paired_def)

lemma paired_in_order:
  "list_all2 P xs ys \<Longrightarrow> list_all2 P (in_order ord xs) (in_order ord ys)"
  by (cases ord) (simp_all add: in_order_def)

lemma group_Run_rel:
  assumes len: "length as = length bs"
    and resp: "\<And>i. i < length as \<Longrightarrow> actor_rel (E i) R (as ! i) (bs ! i)"
    and trig: "E k = (=)"
    and st: "R s t"
  shows "outcome (group_Run ord as k s) = outcome (group_Run ord bs k t) \<and>
         interrupted (group_Run ord as k s) = interrupted (group_Run ord bs k t) \<and>
         R (final (group_Run ord as k s)) (final (group_Run ord bs k t))"
proof (cases "as = []")
  case True
  with len st show ?thesis by (simp add: group_Run_def)
next
  case False
  with len have bs: "bs \<noteq> []" by auto
  note en = paired_enumerate[of as bs E R, OF len resp]
  let ?s1 = "fold execute_start as s" and ?t1 = "fold execute_start bs t"
  have s1: "R ?s1 ?t1"
    using fold_start_rel[OF en st] by (simp add: fold_snd_enumerate)
  show ?thesis
  proof (cases "length as \<le> k")
    case True
    with False bs len s1 show ?thesis by (simp add: group_Run_def Let_def)
  next
    case k: False
    then have kl: "k < length as" by simp
    from resp[OF kl] trig s1
    have w: "rel_option (rel_prod (=) R) (execute_wait (as ! k) ?s1) (execute_wait (bs ! k) ?t1)"
      by (simp add: actor_rel_def)
    show ?thesis
    proof (cases "execute_wait (as ! k) ?s1")
      case None
      with w have "execute_wait (bs ! k) ?t1 = None"
        by (cases "execute_wait (bs ! k) ?t1") auto
      with None False bs len k s1 show ?thesis by (simp add: group_Run_def Let_def)
    next
      case (Some r)
      obtain e s2 where r: "r = (e, s2)" by (cases r)
      from w Some r obtain t2 where t2: "execute_wait (bs ! k) ?t1 = Some (e, t2)" "R s2 t2"
        by (cases "execute_wait (bs ! k) ?t1") auto
      let ?xs = "in_order ord (enumerate 0 as)" and ?ys = "in_order ord (enumerate 0 bs)"
      obtain js ra where ia: "interrupt_all ?xs e s2 = (js, ra)" by (cases "interrupt_all ?xs e s2")
      obtain js' rb where ib: "interrupt_all ?ys e t2 = (js', rb)" by (cases "interrupt_all ?ys e t2")
      from interrupt_all_rel[OF paired_in_order[OF en] t2(2), of ord e] ia ib
      have js: "js' = js" and rr: "rel_step R ra rb" by simp_all
      have unf_a: "group_Run ord as k s =
        (case (js, ra) of
           (js, Cont s3) \<Rightarrow>
             (case join_all (enumerate 0 as) k s3 of
                None \<Rightarrow> \<lparr>outcome = Hangs, interrupted = js, final = s3\<rparr>
              | Some s4 \<Rightarrow> \<lparr>outcome = Returned e, interrupted = js, final = s4\<rparr>)
         | (js, Exit s3) \<Rightarrow> \<lparr>outcome = Exited, interrupted = js, final = s3\<rparr>
         | (js, Block s3) \<Rightarrow> \<lparr>outcome = Hangs, interrupted = js, final = s3\<rparr>
         | (js, Panic s3) \<Rightarrow> \<lparr>outcome = Panicked, interrupted = js, final = s3\<rparr>)"
        using False k Some r ia by (simp add: group_Run_def Let_def)
      have unf_b: "group_Run ord bs k t =
        (case (js, rb) of
           (js, Cont s3) \<Rightarrow>
             (case join_all (enumerate 0 bs) k s3 of
                None \<Rightarrow> \<lparr>outcome = Hangs, interrupted = js, final = s3\<rparr>
              | Some s4 \<Rightarrow> \<lparr>outcome = Returned e, interrupted = js, final = s4\<rparr>)
         | (js, Exit s3) \<Rightarrow> \<lparr>outcome = Exited, interrupted = js, final = s3\<rparr>
         | (js, Block s3) \<Rightarrow> \<lparr>outcome = Hangs, interrupted = js, final = s3\<rparr>
         | (js, Panic s3) \<Rightarrow> \<lparr>outcome = Panicked, interrupted = js, final = s3\<rparr>)"
        using bs k len t2 ib js by (simp add: group_Run_def Let_def)
      show ?thesis
      proof (cases ra)
        case (Cont s3)
        with rr obtain t3 where t3: "rb = Cont t3" "R s3 t3" by (cases rb) auto
        from join_all_rel[OF en t3(2), of k]
        show ?thesis unfolding unf_a unf_b using Cont t3
          by (cases "join_all (enumerate 0 as) k s3"; cases "join_all (enumerate 0 bs) k t3") auto
      next
        case (Exit s3)
        with rr obtain t3 where "rb = Exit t3" "R s3 t3" by (cases rb) auto
        then show ?thesis unfolding unf_a unf_b using Exit by simp
      next
        case (Block s3)
        with rr obtain t3 where "rb = Block t3" "R s3 t3" by (cases rb) auto
        then show ?thesis unfolding unf_a unf_b using Block by simp
      next
        case (Panic s3)
        with rr obtain t3 where "rb = Panic t3" "R s3 t3" by (cases rb) auto
        then show ?thesis unfolding unf_a unf_b using Panic by simp
      qed
    qed
  qed
qed


section \<open>The run group: the trigger's error\<close>

lemma actor_rel_refl: "actor_rel (=) (=) a a"
  by (simp add: actor_rel_def prod.rel_eq option.rel_eq step.rel_eq)

lemma actor_rel_with_error: "actor_rel (\<lambda>_ _. True) (=) a (with_error g a)"
  unfolding actor_rel_def with_error_def
  by (auto simp: step.rel_eq split: option.splits)

lemma length_others_err: "length (others_err f k actors) = length actors"
  by (simp add: others_err_def)

lemma nth_others_err:
  "i < length actors \<Longrightarrow>
   others_err f k actors ! i = (if i = k then actors ! i else with_error (f i) (actors ! i))"
  by (simp add: others_err_def nth_enumerate_eq)

lemma group_Run_others_err:
  "outcome (group_Run ord (others_err f k actors) k s) = outcome (group_Run ord actors k s)"
proof -
  let ?E = "\<lambda>i. if i = k then (=) else (\<lambda>_ _. True)"
  have "outcome (group_Run ord actors k s) = outcome (group_Run ord (others_err f k actors) k s) \<and>
        interrupted (group_Run ord actors k s) = interrupted (group_Run ord (others_err f k actors) k s) \<and>
        final (group_Run ord actors k s) = final (group_Run ord (others_err f k actors) k s)"
  proof (rule group_Run_rel[where E = ?E and R = "(=)"])
    show "length actors = length (others_err f k actors)"
      by (simp add: length_others_err)
  next
    fix i assume "i < length actors"
    then show "actor_rel (?E i) (=) (actors ! i) (others_err f k actors ! i)"
      by (simp add: nth_others_err actor_rel_refl actor_rel_with_error)
  next
    show "?E k = (=)" by simp
  next
    show "s = s" by simp
  qed
  then show ?thesis by simp
qed

text \<open>
  C2, as amended.  If the run function of actor \<open>k\<close> is the first to return, with error
  \<open>e\<close> (possibly \<^verbatim>\<open>nil\<close>), every interrupt returns and every other run function returns
  once interrupted, then \<open>Run\<close> returns exactly \<open>e\<close>, for a group of any size, and it
  still returns \<open>e\<close> when the run functions of the other actors return any other errors
  (\<open>others_err f k\<close> replaces the error of actor \<open>i\<close> by \<open>f i\<close> of it).
\<close>

theorem group_Run_returns_trigger_error:
  assumes "actors \<noteq> []" and "k < length actors"
    and "execute_wait (actors ! k) (fold execute_start actors s) = Some (e, s2)"
    and "interrupt_all (in_order ord (enumerate 0 actors)) e s2 = (js, Cont s3)"
    and "join_all (enumerate 0 actors) k s3 = Some s4"
  shows "outcome (group_Run ord actors k s) = Returned e \<and>
         outcome (group_Run ord (others_err f k actors) k s) = Returned e"
  using group_Run_returns[OF assms] by (simp add: group_Run_others_err)

lemma sigterm_run_reverse:
  "\<exists>s2 js s3 s4.
     execute_wait (run_group ! 1) (fold execute_start run_group sigterm_world) = Some (None, s2) \<and>
     interrupt_all (in_order Reverse (enumerate 0 run_group)) None s2 = (js, Cont s3) \<and>
     join_all (enumerate 0 run_group) 1 s3 = Some s4"
  by (simp add: run_group_eq enumerate3 in_order_def actor_defs world_defs Let_def)

text \<open>
  The theorem at the group of \<open>Run\<close>, interrupts in reverse order, when a \<^verbatim>\<open>SIGTERM\<close>
  arrives and the other two run functions are made to return an error.
\<close>

theorem group_Run_returns_trigger_error_witness:
  "run_group \<noteq> [] \<and> 1 < length run_group \<and>
   outcome (group_Run Reverse run_group 1 sigterm_world) = Returned None \<and>
   outcome (group_Run Reverse (others_err (\<lambda>i e. Some ''late error'') 1 run_group) 1 sigterm_world)
     = Returned None"
proof -
  have ne: "run_group \<noteq> []" and k: "1 < length run_group"
    by (simp_all add: run_group_eq)
  obtain s2 js s3 s4 where
    "execute_wait (run_group ! 1) (fold execute_start run_group sigterm_world) = Some (None, s2)"
    "interrupt_all (in_order Reverse (enumerate 0 run_group)) None s2 = (js, Cont s3)"
    "join_all (enumerate 0 run_group) 1 s3 = Some s4"
    using sigterm_run_reverse by blast
  from group_Run_returns_trigger_error[OF ne k this] ne k show ?thesis by simp
qed

text \<open>
  C2 as stated fails on the group of \<open>Run\<close>: when \<^verbatim>\<open>Serve\<close> is the first to return, with
  the error \<^verbatim>\<open>accept failed\<close>, \<open>Run\<close> of the group does not return that error (the
  process ends in the interrupt of the server actor).
\<close>

theorem trigger_error_not_returned_counterexample:
  "map_option fst (execute_wait (run_group ! 0) (fold execute_start run_group serve_fails_world))
     = Some (Some ''accept failed'') \<and>
   outcome (group_Run Registration run_group 0 serve_fails_world) \<noteq> Returned (Some ''accept failed'') \<and>
   outcome (group_Run Reverse run_group 0 serve_fails_world) \<noteq> Returned (Some ''accept failed'')"
  by (simp add: group_Run_def run_group_eq enumerate3 in_order_def actor_defs world_defs Let_def)

section \<open>The interrupt of the server actor\<close>

lemma drain_time_le: "filter (overdue T) cs = [] \<Longrightarrow> drain_time cs \<le> T"
  by (induction cs) (auto simp: drain_time_def overdue_def split: option.splits if_splits)

text \<open>
  C4, as amended.  With a \<^verbatim>\<open>nil\<close> trigger error and a positive \<^verbatim>\<open>ShutdownTimeout\<close>
  the interrupt of the server actor returns after a graceful shutdown: the server has
  stopped accepting, \<^verbatim>\<open>Shutdown\<close> was called with the timeout as its deadline, the wait
  took no longer than the timeout, no connection is left, and the connections cut by
  \<^verbatim>\<open>Close\<close> are exactly those that had not finished by the deadline (none when all had).
  With a trigger error that is not \<^verbatim>\<open>nil\<close> the interrupt logs it with \<^verbatim>\<open>log.Fatalf\<close>,
  which ends the process: neither \<^verbatim>\<open>Shutdown\<close> nor \<^verbatim>\<open>Close\<close> is called.
\<close>

theorem server_interrupt_graceful:
  assumes "0 < ShutdownTimeout w"
  shows "(\<exists>w'. server_interrupt None w = Cont w' \<and>
            inShutdown (server w') \<and>
            conns (server w') = [] \<and>
            forced (server w') =
              forced (server w) +
              length (filter (overdue (nat (ShutdownTimeout w))) (conns (server w))) \<and>
            waited (server w') \<le> waited (server w) + nat (ShutdownTimeout w) \<and>
            Call_Shutdown (Some (nat (ShutdownTimeout w))) \<in> set (trace w')) \<and>
         (\<forall>x. server_interrupt (Some x) w =
              Exit (emit (Log_Fatal ''Failed to start HTTP Server: %v'' x) w))"
proof -
  let ?T = "nat (ShutdownTimeout w)"
  have d: "shutdown_deadline (emit (Log_Info ''Shutting HTTP Server down'') w) = Some ?T"
    using assms by (simp add: shutdown_deadline_def emit_def)
  show ?thesis
  proof (cases "filter (overdue ?T) (conns (server w)) = []")
    case True
    then show ?thesis
      using d drain_time_le[OF True]
      by (simp add: server_interrupt_def srv_Shutdown_def srv_Close_def emit_def Let_def
          split: option.splits)
  next
    case False
    then show ?thesis
      using d
      by (simp add: server_interrupt_def srv_Shutdown_def srv_Close_def emit_def Let_def)
  qed
qed

text \<open>
  The theorem at the default timeout of three seconds with three connections in
  flight: the two that need longer than the timeout are cut.
\<close>

theorem server_interrupt_graceful_witness:
  "0 < ShutdownTimeout sigterm_world \<and>
   (\<exists>w'. server_interrupt None sigterm_world = Cont w' \<and>
      inShutdown (server w') \<and> conns (server w') = [] \<and>
      forced (server w') = 2 \<and> waited (server w') \<le> 3000000000 \<and>
      Call_Shutdown (Some 3000000000) \<in> set (trace w')) \<and>
   server_interrupt (Some ''accept failed'') sigterm_world =
     Exit (emit (Log_Fatal ''Failed to start HTTP Server: %v'' ''accept failed'') sigterm_world)"
proof -
  have h: "0 < ShutdownTimeout sigterm_world" by (simp add: world_defs)
  have c: "length (filter (overdue 3000000000) (conns (server sigterm_world))) = 2"
    by (simp add: world_defs overdue_def)
  have f: "forced (server sigterm_world) = 0" "waited (server sigterm_world) = 0"
    "nat (ShutdownTimeout sigterm_world) = 3000000000"
    by (simp_all add: world_defs)
  from server_interrupt_graceful[OF h] h show ?thesis
    by (auto simp: f c)
qed

text \<open>
  C4 as stated fails for a trigger error that is not \<^verbatim>\<open>nil\<close>: the interrupt ends in
  \<open>Exit\<close> with the fatal line as the only event, and the three connections in flight
  are neither drained nor cut by the server.
\<close>

theorem server_interrupt_fatal_counterexample:
  "server_interrupt (Some ''accept failed'') serve_fails_world =
     Exit (serve_fails_world\<lparr>trace := [Log_Fatal ''Failed to start HTTP Server: %v'' ''accept failed'']\<rparr>) \<and>
   conns (server serve_fails_world) = [Some 1000, Some 5000000000, None]"
  by (simp add: server_interrupt_def emit_def world_defs)

text \<open>
  C5, as amended.  With a \<^verbatim>\<open>ShutdownTimeout\<close> that is zero or negative and a \<^verbatim>\<open>nil\<close>
  trigger error, the interrupt of the server actor calls \<^verbatim>\<open>Shutdown\<close> without a
  deadline.  If some connection never finishes, the interrupt never returns and cuts no
  connection; otherwise it returns when the last connection is done, and \<^verbatim>\<open>Close\<close>,
  which is still called, finds no connection to cut.
\<close>

theorem server_interrupt_no_deadline:
  assumes "ShutdownTimeout w \<le> 0"
  shows "shutdown_deadline w = None \<and>
         (if None \<in> set (conns (server w))
          then \<exists>w'. server_interrupt None w = Block w' \<and>
                 forced (server w') = forced (server w) \<and>
                 trace w' = trace w @ [Log_Info ''Shutting HTTP Server down'', Call_Shutdown None]
          else \<exists>w'. server_interrupt None w = Cont w' \<and>
                 conns (server w') = [] \<and>
                 forced (server w') = forced (server w) \<and>
                 waited (server w') = waited (server w) + drain_time (conns (server w)) \<and>
                 trace w' =
                   trace w @ [Log_Info ''Shutting HTTP Server down'', Call_Shutdown None] @
                   (case ln_close_err (server w) of
                      None \<Rightarrow> []
                    | Some x \<Rightarrow> [Log_Error ''Error shutting down HTTP server: %s'' x]) @
                   [Call_Close])"
  using assms
  by (simp add: server_interrupt_def shutdown_deadline_def srv_Shutdown_def srv_Close_def
      emit_def Let_def split: option.splits)

text \<open>
  The theorem at a timeout of zero with two connections in flight, the longer one
  needing five seconds.
\<close>

theorem server_interrupt_no_deadline_witness:
  "ShutdownTimeout exit_world \<le> 0 \<and> shutdown_deadline exit_world = None \<and>
   (\<exists>w'. server_interrupt None exit_world = Cont w' \<and>
      conns (server w') = [] \<and> forced (server w') = 0 \<and> waited (server w') = 5000000000 \<and>
      trace w' = [Log_Info ''Shutting HTTP Server down'', Call_Shutdown None, Call_Close])"
proof -
  have h: "ShutdownTimeout exit_world \<le> 0" by (simp add: world_defs)
  have f: "None \<notin> set (conns (server exit_world))" "forced (server exit_world) = 0"
    "waited (server exit_world) = 0" "drain_time (conns (server exit_world)) = 5000000000"
    "trace exit_world = []" "ln_close_err (server exit_world) = None"
    by (simp_all add: world_defs drain_time_def)
  from server_interrupt_no_deadline[OF h] h show ?thesis
    by (simp add: f)
qed

text \<open>
  C5 as stated fails for a trigger error that is not \<^verbatim>\<open>nil\<close>: with the timeout at zero
  and three connections in flight the interrupt does not wait for them, it ends the
  process at once.
\<close>

theorem no_deadline_fatal_counterexample:
  "ShutdownTimeout (serve_fails_world\<lparr>ShutdownTimeout := 0\<rparr>) \<le> 0 \<and>
   conns (server (serve_fails_world\<lparr>ShutdownTimeout := 0\<rparr>)) = [Some 1000, Some 5000000000, None] \<and>
   server_interrupt (Some ''accept failed'') (serve_fails_world\<lparr>ShutdownTimeout := 0\<rparr>) =
     Exit (serve_fails_world\<lparr>ShutdownTimeout := 0,
             trace := [Log_Fatal ''Failed to start HTTP Server: %v'' ''accept failed'']\<rparr>)"
  by (simp add: server_interrupt_def emit_def world_defs)

section \<open>The hang-up watcher\<close>

lemma trace_hangup_iteration:
  "trace (hangup_iteration r w) = trace w @ hangup_events r"
  by (simp add: hangup_iteration_def hangup_events_def upg_Upgrade_def emit_def Let_def
      split: option.splits)

lemma trace_hangup_watcher:
  "trace (hangup_watcher rs w) = trace w @ concat (map hangup_events rs)"
  by (induction rs arbitrary: w) (simp_all add: trace_hangup_iteration)

lemma hangup_watcher_append:
  "hangup_watcher (rs @ rs') w = hangup_watcher rs' (hangup_watcher rs w)"
  by (induction rs arbitrary: w) simp_all

lemma count_Upgrade_events:
  "count_list (concat (map hangup_events rs)) Call_Upgrade = length rs"
  by (induction rs) (simp_all add: hangup_events_def split: option.splits)

lemma Fatal_hangup_events:
  "filter is_Log_Fatal (concat (map hangup_events rs)) = []"
  by (induction rs) (simp_all add: hangup_events_def is_Log_Fatal_def split: option.splits)

lemma count_list_app: "count_list (xs @ ys) x = count_list xs x + count_list ys x"
  by (induction xs) simp_all

text \<open>
  C7.  For the signals \<open>rs\<close> received (one answer of \<^verbatim>\<open>Upgrade\<close> each), the watcher adds
  to the trace, per signal, the info line, one call of \<^verbatim>\<open>upg.Upgrade\<close> and, when the
  call failed, one error line with that error; so there are exactly as many calls of
  \<^verbatim>\<open>Upgrade\<close> as signals.  It never logs a fatal line, and after any signals, failed or
  not, it handles the next ones as before: the loop has no exit.
\<close>

theorem hangup_watcher_one_upgrade_per_signal:
  "trace (hangup_watcher rs w) = trace w @ concat (map hangup_events rs) \<and>
   count_list (trace (hangup_watcher rs w)) Call_Upgrade =
     count_list (trace w) Call_Upgrade + length rs \<and>
   filter is_Log_Fatal (trace (hangup_watcher rs w)) = filter is_Log_Fatal (trace w) \<and>
   hangup_watcher (rs @ rs') w = hangup_watcher rs' (hangup_watcher rs w)"
  by (simp add: trace_hangup_watcher hangup_watcher_append count_list_app
      count_Upgrade_events Fatal_hangup_events)

text \<open>
  The theorem at two signals, the first \<^verbatim>\<open>Upgrade\<close> failing.
\<close>

theorem hangup_watcher_one_upgrade_per_signal_witness:
  "trace (hangup_watcher [Some ''exec failed'', None] world0) =
     [Log_Info ''Received SIGHUP, restaring gracefully...'', Call_Upgrade,
      Log_Error ''Upgrade failed: %v'' ''exec failed'',
      Log_Info ''Received SIGHUP, restaring gracefully...'', Call_Upgrade] \<and>
   count_list (trace (hangup_watcher [Some ''exec failed'', None] world0)) Call_Upgrade = 2 \<and>
   filter is_Log_Fatal (trace (hangup_watcher [Some ''exec failed'', None] world0)) = [] \<and>
   hangup_watcher ([Some ''exec failed''] @ [None]) world0 =
     hangup_watcher [None] (hangup_watcher [Some ''exec failed''] world0)"
  using hangup_watcher_one_upgrade_per_signal[of "[Some ''exec failed'']" world0 "[None]"]
    hangup_watcher_one_upgrade_per_signal[of "[Some ''exec failed'', None]" world0 "[]"]
  by (simp add: hangup_events_def world_defs is_Log_Fatal_def)

section \<open>Run when the upgrader cannot be constructed\<close>

text \<open>
  C3.  The code at the failing input: \<^verbatim>\<open>tableflip.New\<close> returns an error.  \<open>Run\<close> logs it
  with \<^verbatim>\<open>log.Errorf\<close>, which does not end the process, goes on to register the
  deferred \<^verbatim>\<open>Stop\<close> and to start the hang-up watcher, and crashes on \<^verbatim>\<open>upg.Fds\<close>.  No
  fatal line is logged.
\<close>

theorem Run_goes_on_after_New_fails:
  "ending (Run Registration 0 ''graceful.pid'' new_fails_world) = Crash \<and>
   trace (world_after (Run Registration 0 ''graceful.pid'' new_fails_world)) =
     [Call_New ''graceful.pid'',
      Log_Error ''Creating graceful upgrader failed: %v'' ''pid file unwritable'',
      Defer_Stop, Go HangupWatcher, Nil_dereference] \<and>
   filter is_Log_Fatal (trace (world_after (Run Registration 0 ''graceful.pid'' new_fails_world))) = []"
  by (simp add: Run_def emit_def world_defs is_Log_Fatal_def)

lemma Run_New_fails:
  "new_result w = Inl err \<Longrightarrow>
   ending (Run ord k pidfile w) = Crash \<and>
   trace (world_after (Run ord k pidfile w)) =
     trace w @ [Call_New pidfile, Log_Error ''Creating graceful upgrader failed: %v'' err,
                Defer_Stop, Go HangupWatcher, Nil_dereference]"
  by (simp add: Run_def emit_def)

section \<open>What does not steer the group of Run\<close>

text \<open>
  Each of the three actors takes worlds that agree on the control state to worlds that
  agree on it, so the run of the group depends on nothing else.
\<close>

lemma server_actor_rel: "actor_rel (=) same_control server_actor server_actor"
  unfolding actor_rel_def
proof (intro conjI allI impI)
  fix s t assume "same_control s t"
  then show "same_control (execute_start server_actor s) (execute_start server_actor t)"
    by (simp add: same_control_def server_actor_def server_execute_start_def emit_def)
next
  fix s t assume "same_control s t"
  then show "rel_option (rel_prod (=) same_control)
      (execute_wait server_actor s) (execute_wait server_actor t)"
    by (simp add: same_control_def server_actor_def server_execute_wait_def srv_Serve_def
        split: option.splits)
next
  fix e s t assume "same_control s t"
  then show "rel_step same_control (interrupt server_actor e s) (interrupt server_actor e t)"
    by (cases e)
       (simp_all add: same_control_def server_actor_def server_interrupt_def
         shutdown_deadline_def srv_Shutdown_def srv_Close_def emit_def Let_def
         split: option.splits)
qed

lemma termination_actor_rel: "actor_rel (=) same_control termination_actor termination_actor"
  unfolding actor_rel_def
proof (intro conjI allI impI)
  fix s t assume "same_control s t"
  then show "same_control (execute_start termination_actor s) (execute_start termination_actor t)"
    by (simp add: same_control_def termination_actor_def termination_execute_start_def emit_def)
next
  fix s t assume "same_control s t"
  then show "rel_option (rel_prod (=) same_control)
      (execute_wait termination_actor s) (execute_wait termination_actor t)"
    by (simp add: same_control_def termination_actor_def termination_execute_wait_def
        log_signal_def emit_def split: list.splits signal.splits)
next
  fix e s t assume "same_control s t"
  then show "rel_step same_control
      (interrupt termination_actor e s) (interrupt termination_actor e t)"
    by (simp add: same_control_def termination_actor_def termination_interrupt_def emit_def)
qed

lemma ready_exit_actor_rel: "actor_rel (=) same_control ready_exit_actor ready_exit_actor"
  unfolding actor_rel_def
proof (intro conjI allI impI)
  fix s t assume "same_control s t"
  then show "same_control (execute_start ready_exit_actor s) (execute_start ready_exit_actor t)"
    by (simp add: same_control_def ready_exit_actor_def ready_execute_start_def upg_Ready_def
        emit_def)
next
  fix s t assume "same_control s t"
  then show "rel_option (rel_prod (=) same_control)
      (execute_wait ready_exit_actor s) (execute_wait ready_exit_actor t)"
    by (simp add: same_control_def ready_exit_actor_def ready_execute_wait_def)
next
  fix e s t assume "same_control s t"
  then show "rel_step same_control
      (interrupt ready_exit_actor e s) (interrupt ready_exit_actor e t)"
    by (simp add: same_control_def ready_exit_actor_def ready_interrupt_def call_Stop_def
        upg_Stop_def)
qed

lemma run_group_same_control:
  assumes "same_control w w'"
  shows "outcome (group_Run ord run_group k w) = outcome (group_Run ord run_group k w') \<and>
         interrupted (group_Run ord run_group k w) = interrupted (group_Run ord run_group k w') \<and>
         same_control (final (group_Run ord run_group k w)) (final (group_Run ord run_group k w'))"
proof (rule group_Run_rel[where E = "\<lambda>_. (=)"])
  show "length run_group = length run_group" by simp
next
  fix i assume "i < length run_group"
  then have "i = 0 \<or> i = 1 \<or> i = 2" by (auto simp: run_group_eq)
  then show "actor_rel (=) same_control (run_group ! i) (run_group ! i)"
    by (auto simp: run_group_eq server_actor_rel termination_actor_rel ready_exit_actor_rel)
next
  show "(=) = ((=) :: error option \<Rightarrow> error option \<Rightarrow> bool)" by simp
next
  show "same_control w w'" by fact
qed

lemma same_control_shutdown_errors: "same_control (shutdown_errors a b w) w"
  by (simp add: same_control_def shutdown_errors_def)

lemma same_control_ready_answers: "same_control (ready_answers r w) w"
  by (simp add: same_control_def ready_answers_def)

lemma group_Run_Returned_trigger:
  "outcome (group_Run ord actors k s) = Returned e \<Longrightarrow> actors \<noteq> [] \<Longrightarrow>
   map_option fst (execute_wait (actors ! k) (fold execute_start actors s)) = Some e"
  by (auto simp: group_Run_def Let_def split: if_splits option.splits prod.splits step.splits)

section \<open>Errors of the shutdown\<close>

lemma server_interrupt_error_log:
  assumes "server_interrupt None w = Cont w'"
  shows "filter is_Log_Error (trace w') =
           filter is_Log_Error (trace w) @
           (case shutdown_answer w of
              Some (Some x) \<Rightarrow> [Log_Error ''Error shutting down HTTP server: %s'' x]
            | _ \<Rightarrow> [])"
  using assms
  by (auto simp: server_interrupt_def shutdown_answer_def shutdown_deadline_def srv_Shutdown_def
      srv_Close_def emit_def Let_def is_Log_Error_def split: option.splits if_splits)

text \<open>
  C6, as amended.  When the interrupt of the server actor returns, the error lines it
  has added are exactly the error that \<^verbatim>\<open>Shutdown\<close> returned, if any: the error of
  \<^verbatim>\<open>Close\<close> is dropped without a line.  Neither error is escalated: the outcome of the
  group is the same whatever the two errors are, and when \<open>Run\<close> of the group returns, it
  returns the error of the trigger.
\<close>

theorem shutdown_errors_not_escalated:
  assumes "server_interrupt None w = Cont w'"
  shows "filter is_Log_Error (trace w') =
           filter is_Log_Error (trace w) @
           (case shutdown_answer w of
              Some (Some x) \<Rightarrow> [Log_Error ''Error shutting down HTTP server: %s'' x]
            | _ \<Rightarrow> []) \<and>
         outcome (group_Run ord run_group k (shutdown_errors a b w)) =
           outcome (group_Run ord run_group k w) \<and>
         (case outcome (group_Run ord run_group k w) of
            Returned e \<Rightarrow>
              map_option fst (execute_wait (run_group ! k) (fold execute_start run_group w)) = Some e
          | _ \<Rightarrow> True)"
proof -
  have ne: "run_group \<noteq> []" by (simp add: run_group_eq)
  have "outcome (group_Run ord run_group k (shutdown_errors a b w)) =
        outcome (group_Run ord run_group k w)"
    using run_group_same_control[OF same_control_shutdown_errors] by simp
  moreover have "case outcome (group_Run ord run_group k w) of
            Returned e \<Rightarrow>
              map_option fst (execute_wait (run_group ! k) (fold execute_start run_group w)) = Some e
          | _ \<Rightarrow> True"
    using group_Run_Returned_trigger[OF _ ne] by (auto split: outcome.splits)
  ultimately show ?thesis
    using server_interrupt_error_log[OF assms] by simp
qed

lemma close_fails_interrupt:
  "\<exists>w'. server_interrupt None close_fails_world = Cont w'"
  by (simp add: actor_defs world_defs Let_def)

text \<open>
  The theorem when a \<^verbatim>\<open>SIGINT\<close> arrives and \<^verbatim>\<open>Close\<close> fails: no error line, and the group
  returns \<^verbatim>\<open>nil\<close> also when closing the listener fails in \<^verbatim>\<open>Shutdown\<close>.
\<close>

theorem shutdown_errors_not_escalated_witness:
  "(\<exists>w'. server_interrupt None close_fails_world = Cont w' \<and>
          filter is_Log_Error (trace w') = []) \<and>
   outcome (group_Run Registration run_group 1 (shutdown_errors (Some ''listener'') None close_fails_world)) =
     Returned None"
proof -
  obtain w' where w': "server_interrupt None close_fails_world = Cont w'"
    using close_fails_interrupt by blast
  have a: "shutdown_answer close_fails_world = Some None" "trace close_fails_world = []"
    by (simp_all add: shutdown_answer_def actor_defs world_defs)
  have o: "outcome (group_Run Registration run_group (Suc 0) close_fails_world) = Returned None"
    by (simp add: group_Run_def run_group_eq enumerate3 in_order_def actor_defs world_defs Let_def)
  from shutdown_errors_not_escalated[OF w', of Registration 1 "Some ''listener''" None] w'
  show ?thesis by (auto simp: a o)
qed

text \<open>
  C6 as stated fails for the error of the forced close: \<^verbatim>\<open>Close\<close> answers an error, \<open>Run\<close>
  returns, and the whole trace has no error line.
\<close>

theorem close_error_not_logged_counterexample:
  "close_err (server close_fails_world) = Some ''close failed'' \<and>
   ending (Run Registration 1 ''graceful.pid'' close_fails_world) = Returns \<and>
   trace (world_after (Run Registration 1 ''graceful.pid'' close_fails_world)) =
     [Call_New ''graceful.pid'', Defer_Stop, Go HangupWatcher, Call_Listen '':9000'',
      Defer_close_ch, Log_Info ''Listening on [%s] with pid [%d]'', Call_Serve,
      Call_Notify [SIGINT, SIGTERM], Call_Ready,
      Log_Info ''Received SIGINT, exiting gracefully...'',
      Log_Info ''Shutting HTTP Server down'', Call_Shutdown (Some 3000000000),
      Call_Close, Call_cancel, Close_cancelInterrupt, Call_signal_Stop,
      Call_Stop, Effect Release_marker, Effect Fire_exit, Close_ch, Call_Stop]"
  by (simp add: Run_def group_Add_def group_Run_def enumerate3 in_order_def actor_defs
      world_defs Let_def)

section \<open>The answer of Ready\<close>

lemma ending_by_outcome:
  "listen_result u = None \<Longrightarrow> new_result w = Inr u \<Longrightarrow>
   ending (Run ord k pidfile w) =
     (case outcome (group_Run ord run_group k (at_group pidfile u w)) of
        Returned None \<Rightarrow> Returns
      | Returned (Some err) \<Rightarrow> Os_Exit
      | Exited \<Rightarrow> Os_Exit
      | Hangs \<Rightarrow> Never
      | Panicked \<Rightarrow> Crash)"
  by (simp add: Run_at_group Let_def split: outcome.splits option.splits)

lemma ending_listen_fails:
  "listen_result u = Some err \<Longrightarrow> new_result w = Inr u \<Longrightarrow>
   ending (Run ord k pidfile w) = Os_Exit"
  by (simp add: Run_def emit_def Let_def)

text \<open>
  C10.  The run function of the readiness/exit actor (its start, then its wait) returns
  \<^verbatim>\<open>nil\<close> exactly when the exit signal has fired, whatever \<^verbatim>\<open>Ready\<close> answered; and the
  outcome of the group and the way \<open>Run\<close> ends do not depend on the answer of \<^verbatim>\<open>Ready\<close>.
\<close>

theorem ready_error_discarded:
  "map_option fst (ready_execute_wait (ready_execute_start (ready_answers r w))) =
     (if exit_fired (upg w) then Some None else None) \<and>
   outcome (group_Run ord run_group k (ready_answers r w)) =
     outcome (group_Run ord run_group k w) \<and>
   ending (Run ord k pidfile (w\<lparr>new_result := Inr (u\<lparr>ready_result := r\<rparr>)\<rparr>)) =
     ending (Run ord k pidfile (w\<lparr>new_result := Inr u\<rparr>))"
proof -
  have 1: "map_option fst (ready_execute_wait (ready_execute_start (ready_answers r w))) =
     (if exit_fired (upg w) then Some None else None)"
    by (simp add: ready_execute_wait_def ready_execute_start_def ready_answers_def upg_Ready_def
        emit_def)
  have 2: "outcome (group_Run ord run_group k (ready_answers r w)) =
     outcome (group_Run ord run_group k w)"
    using run_group_same_control[OF same_control_ready_answers] by simp
  have 3: "ending (Run ord k pidfile (w\<lparr>new_result := Inr (u\<lparr>ready_result := r\<rparr>)\<rparr>)) =
     ending (Run ord k pidfile (w\<lparr>new_result := Inr u\<rparr>))"
  proof (cases "listen_result u")
    case None
    let ?wa = "w\<lparr>new_result := Inr (u\<lparr>ready_result := r\<rparr>)\<rparr>" and ?wb = "w\<lparr>new_result := Inr u\<rparr>"
    let ?a = "at_group pidfile (u\<lparr>ready_result := r\<rparr>) ?wa"
    let ?b = "at_group pidfile u ?wb"
    have sc: "same_control ?a ?b" by (simp add: same_control_def at_group_def)
    have o: "outcome (group_Run ord run_group k ?a) = outcome (group_Run ord run_group k ?b)"
      using run_group_same_control[OF sc] by simp
    have A: "ending (Run ord k pidfile ?wa) =
          (case outcome (group_Run ord run_group k ?a) of
             Returned None \<Rightarrow> Returns | Returned (Some err) \<Rightarrow> Os_Exit
           | Exited \<Rightarrow> Os_Exit | Hangs \<Rightarrow> Never | Panicked \<Rightarrow> Crash)"
      using None by (intro ending_by_outcome) simp_all
    have B: "ending (Run ord k pidfile ?wb) =
          (case outcome (group_Run ord run_group k ?b) of
             Returned None \<Rightarrow> Returns | Returned (Some err) \<Rightarrow> Os_Exit
           | Exited \<Rightarrow> Os_Exit | Hangs \<Rightarrow> Never | Panicked \<Rightarrow> Crash)"
      using None by (intro ending_by_outcome) simp_all
    show ?thesis by (simp only: A B o)
  next
    case (Some err)
    then show ?thesis
      using ending_listen_fails[of "u\<lparr>ready_result := r\<rparr>" err "w\<lparr>new_result := Inr (u\<lparr>ready_result := r\<rparr>)\<rparr>"]
        ending_listen_fails[of u err "w\<lparr>new_result := Inr u\<rparr>"]
      by simp
  qed
  from 1 2 3 show ?thesis by simp
qed

text \<open>
  The theorem when \<^verbatim>\<open>Ready\<close> fails and a successor takes over: the run function returns
  \<^verbatim>\<open>nil\<close>, the group returns \<^verbatim>\<open>nil\<close> and \<open>Run\<close> returns.
\<close>

theorem ready_error_discarded_witness:
  "map_option fst (ready_execute_wait (ready_execute_start
       (ready_answers (Some ''no parent'') exit_world))) = Some None \<and>
   outcome (group_Run Registration run_group 2 (ready_answers (Some ''no parent'') exit_world)) =
     Returned None \<and>
   ending (Run Registration 2 ''graceful.pid''
       (exit_world\<lparr>new_result := Inr (upg0\<lparr>exit_fired := True, ready_result := Some ''no parent''\<rparr>)\<rparr>)) =
     Returns"
proof -
  have e: "exit_fired (upg exit_world)" by (simp add: world_defs)
  have o: "outcome (group_Run Registration run_group 2 exit_world) = Returned None"
    by (simp add: group_Run_def run_group_eq enumerate3 in_order_def actor_defs world_defs Let_def)
  have r: "ending (Run Registration 2 ''graceful.pid''
       (exit_world\<lparr>new_result := Inr (upg0\<lparr>exit_fired := True\<rparr>)\<rparr>)) = Returns"
    by (simp add: Run_def group_Add_def group_Run_def enumerate3 in_order_def actor_defs
        world_defs Let_def)
  from ready_error_discarded[of "Some ''no parent''" exit_world Registration 2 "''graceful.pid''"
      "upg0\<lparr>exit_fired := True\<rparr>"]
  show ?thesis by (simp add: e o r)
qed

section \<open>The hang-up watcher and the group\<close>

lemma server_actor_keeps: "actor_rel (=) (keeps ev) server_actor server_actor"
  unfolding actor_rel_def keeps_def
  by (auto simp: server_actor_def server_execute_start_def server_execute_wait_def
      server_interrupt_def srv_Shutdown_def srv_Close_def emit_def Let_def
      split: option.splits if_splits)

lemma termination_actor_keeps: "actor_rel (=) (keeps ev) termination_actor termination_actor"
  unfolding actor_rel_def keeps_def
  by (auto simp: termination_actor_def termination_execute_start_def
      termination_execute_wait_def termination_interrupt_def log_signal_def emit_def
      split: list.splits signal.splits)

lemma ready_exit_actor_keeps: "actor_rel (=) (keeps ev) ready_exit_actor ready_exit_actor"
  unfolding actor_rel_def keeps_def
  by (auto simp: ready_exit_actor_def ready_execute_start_def ready_execute_wait_def
      ready_interrupt_def call_Stop_def upg_Stop_def upg_Ready_def emit_def)

lemma run_group_keeps:
  assumes "ev \<in> set (trace w)"
  shows "ev \<in> set (trace (final (group_Run ord run_group k w)))"
proof -
  have "outcome (group_Run ord run_group k w) = outcome (group_Run ord run_group k w) \<and>
        interrupted (group_Run ord run_group k w) = interrupted (group_Run ord run_group k w) \<and>
        keeps ev (final (group_Run ord run_group k w)) (final (group_Run ord run_group k w))"
  proof (rule group_Run_rel[where E = "\<lambda>_. (=)" and R = "keeps ev"])
    show "length run_group = length run_group" by simp
  next
    fix i assume "i < length run_group"
    then have "i = 0 \<or> i = 1 \<or> i = 2" by (auto simp: run_group_eq)
    then show "actor_rel (=) (keeps ev) (run_group ! i) (run_group ! i)"
      by (auto simp: run_group_eq server_actor_keeps termination_actor_keeps
          ready_exit_actor_keeps)
  next
    show "(=) = ((=) :: error option \<Rightarrow> error option \<Rightarrow> bool)" by simp
  next
    show "keeps ev w w" using assms by (simp add: keeps_def)
  qed
  then show ?thesis by (simp add: keeps_def)
qed

lemma interrupt_all_indices:
  "set (fst (interrupt_all xs e s)) \<subseteq> set (map fst xs)"
proof (induction xs arbitrary: s)
  case Nil
  then show ?case by simp
next
  case (Cons p xs)
  obtain i a where p: "p = (i, a)" by (cases p)
  show ?case
  proof (cases "interrupt a e s")
    case (Cont s')
    obtain js r where jr: "interrupt_all xs e s' = (js, r)"
      by (cases "interrupt_all xs e s'")
    with Cons.IH[of s'] have "set js \<subseteq> set (map fst xs)" by simp
    with Cont p jr show ?thesis by auto
  qed (use p in simp_all)
qed

lemma group_Run_indices:
  "set (interrupted (group_Run ord actors k s)) \<subseteq> {..<length actors}"
proof -
  have "set (map fst (in_order ord (enumerate 0 actors))) = {..<length actors}"
    unfolding map_fst_in_order
    by (cases ord) (simp_all add: in_order_def atLeast0LessThan)
  then have "\<And>e s2. set (fst (interrupt_all (in_order ord (enumerate 0 actors)) e s2))
      \<subseteq> {..<length actors}"
    using interrupt_all_indices[of "in_order ord (enumerate 0 actors)"] by simp
  then have *: "\<And>e s2 js r. interrupt_all (in_order ord (enumerate 0 actors)) e s2 = (js, r) \<Longrightarrow>
      set js \<subseteq> {..<length actors}"
    by (metis fst_conv)
  show ?thesis
    by (simp add: group_Run_def Let_def split: option.splits prod.splits step.splits)
       (use * in blast)
qed

lemma Run_group_result_cases:
  "group_result (Run ord k pidfile w) = None \<or>
   (\<exists>W. group_result (Run ord k pidfile w) = Some (group_Run ord run_group k W))"
  by (auto simp: Run_def run_group_def Let_def split: sum.splits option.splits outcome.splits)

lemma Run_group_cases:
  "group (Run ord k pidfile w) = [] \<or> group (Run ord k pidfile w) = run_group"
  by (simp add: Run_def run_group_def Let_def split: sum.splits option.splits outcome.splits)

lemma Run_group_result:
  "group_result (Run ord k pidfile w) = Some r \<Longrightarrow>
   set (interrupted r) \<subseteq> {..<length run_group}"
  using Run_group_result_cases[of ord k pidfile w] group_Run_indices[of ord run_group k]
  by auto

lemma Run_starts_watcher:
  "Go HangupWatcher \<in> set (trace (world_after (Run ord k pidfile w)))"
proof (cases "new_result w")
  case (Inl err)
  then show ?thesis by (simp add: Run_def emit_def)
next
  case (Inr u)
  show ?thesis
  proof (cases "listen_result u")
    case (Some err)
    with Inr show ?thesis by (simp add: Run_def emit_def Let_def)
  next
    case None
    let ?W = "at_group pidfile u w"
    have "Go HangupWatcher \<in> set (trace ?W)" by (simp add: at_group_def)
    from run_group_keeps[OF this, of ord k]
    have f: "Go HangupWatcher \<in> set (trace (final (group_Run ord run_group k ?W)))" .
    have "world_after (Run ord k pidfile w) =
      (case outcome (group_Run ord run_group k ?W) of
         Returned None \<Rightarrow> call_Stop (close_ch (final (group_Run ord run_group k ?W)))
       | Returned (Some err) \<Rightarrow>
           emit (Log_Fatal ''Error starting service: %s'' err) (final (group_Run ord run_group k ?W))
       | Exited \<Rightarrow> final (group_Run ord run_group k ?W)
       | Hangs \<Rightarrow> final (group_Run ord run_group k ?W)
       | Panicked \<Rightarrow> call_Stop (close_ch (final (group_Run ord run_group k ?W))))"
      using Inr None
      by (simp add: Run_at_group Let_def split: outcome.splits option.splits)
    then show ?thesis
      using f
      by (auto simp: call_Stop_def close_ch_def emit_def upg_Stop_def
          split: outcome.splits option.splits)
  qed
qed

text \<open>
  C8, as amended.  In every run of \<open>Run\<close> the hang-up watcher is started by a
  \<^verbatim>\<open>go\<close> statement and is not registered with the group: the group is empty (when \<open>Run\<close>
  ends before the registrations) or consists of the server actor, the
  termination-signal actor and the readiness/exit actor, and the interrupts of the
  group go to these three only.  The watcher has no interrupt function.
\<close>

theorem hangup_watcher_is_no_actor:
  "HangupWatcher \<notin> set (map actor_label (group (Run ord k pidfile w))) \<and>
   (group (Run ord k pidfile w) = [] \<or> group (Run ord k pidfile w) = run_group) \<and>
   map actor_label run_group = [ServerActor, TerminationActor, ReadyExitActor] \<and>
   Go HangupWatcher \<in> set (trace (world_after (Run ord k pidfile w))) \<and>
   (case group_result (Run ord k pidfile w) of
      None \<Rightarrow> True
    | Some r \<Rightarrow> set (interrupted r) \<subseteq> {..<length run_group})"
proof -
  have l: "map actor_label run_group = [ServerActor, TerminationActor, ReadyExitActor]"
    by (simp add: run_group_eq server_actor_def termination_actor_def ready_exit_actor_def)
  have "HangupWatcher \<notin> set (map actor_label run_group)"
    unfolding l by simp
  then have n: "HangupWatcher \<notin> set (map actor_label (group (Run ord k pidfile w)))"
    using Run_group_cases[of ord k pidfile w] by auto
  show ?thesis
    using n l Run_group_cases[of ord k pidfile w] Run_starts_watcher[of ord k pidfile w]
      Run_group_result[of ord k pidfile w]
    by (auto split: option.splits)
qed

text \<open>
  The theorem when a \<^verbatim>\<open>SIGTERM\<close> arrives: the three actors are interrupted, the watcher
  is not among them.
\<close>

theorem hangup_watcher_is_no_actor_witness:
  "HangupWatcher \<notin> set (map actor_label (group (Run Registration 1 ''graceful.pid'' sigterm_world))) \<and>
   group (Run Registration 1 ''graceful.pid'' sigterm_world) = run_group \<and>
   map actor_label run_group = [ServerActor, TerminationActor, ReadyExitActor] \<and>
   Go HangupWatcher \<in> set (trace (world_after (Run Registration 1 ''graceful.pid'' sigterm_world))) \<and>
   map_option interrupted (group_result (Run Registration 1 ''graceful.pid'' sigterm_world)) =
     Some [0, 1, 2]"
proof -
  have g: "group (Run Registration 1 ''graceful.pid'' sigterm_world) = run_group"
    by (simp add: Run_def run_group_def group_Add_def group_Run_def enumerate3 in_order_def
        actor_defs world_defs Let_def)
  have i: "map_option interrupted (group_result (Run Registration 1 ''graceful.pid'' sigterm_world)) =
     Some [0, 1, 2]"
    by (simp add: Run_def group_Add_def group_Run_def enumerate3 in_order_def
        actor_defs world_defs Let_def)
  from hangup_watcher_is_no_actor[of Registration 1 "''graceful.pid''" sigterm_world] g i
  show ?thesis by simp
qed

text \<open>
  C8 as stated fails: when a \<^verbatim>\<open>SIGTERM\<close> arrives \<open>Run\<close> returns after interrupting the
  three registered actors; the hang-up watcher has been started and is none of them.
\<close>

theorem hangup_watcher_not_registered_counterexample:
  "map actor_label (group (Run Registration 1 ''graceful.pid'' sigterm_world)) =
     [ServerActor, TerminationActor, ReadyExitActor] \<and>
   ending (Run Registration 1 ''graceful.pid'' sigterm_world) = Returns \<and>
   map_option interrupted (group_result (Run Registration 1 ''graceful.pid'' sigterm_world)) =
     Some [0, 1, 2] \<and>
   Go HangupWatcher \<in> set (trace (world_after (Run Registration 1 ''graceful.pid'' sigterm_world))) \<and>
   HangupWatcher \<notin> set (map actor_label (group (Run Registration 1 ''graceful.pid'' sigterm_world)))"
  by (simp add: Run_def group_Add_def group_Run_def enumerate3 in_order_def
      actor_defs world_defs Let_def)

section \<open>Stop twice\<close>

lemma upg_Stop_twice: "upg_Stop (snd (upg_Stop u)) = ([], snd (upg_Stop u))"
  by (simp add: upg_Stop_def)

lemma stopped_upg_Stop: "stopped (snd (upg_Stop u))"
  by (simp add: upg_Stop_def stopped_def)

lemma upg_Stop_stopped: "stopped u \<Longrightarrow> upg_Stop u = ([], u)"
  by (simp add: upg_Stop_def stopped_def)

lemma call_Stop_twice:
  "call_Stop (call_Stop w) = (call_Stop w)\<lparr>trace := trace (call_Stop w) @ [Call_Stop]\<rparr>"
  by (simp add: call_Stop_def upg_Stop_def)

lemma call_Stop_facts:
  "stopped (upg (call_Stop w)) \<and>
   (\<exists>tl. trace (call_Stop w) = trace w @ tl \<and> Call_Stop \<in> set tl)"
  by (simp add: call_Stop_def upg_Stop_def stopped_def)

lemma server_interrupt_Cont:
  "server_interrupt e w = Cont w' \<Longrightarrow> upg w' = upg w \<and> (\<exists>tl. trace w' = trace w @ tl)"
  by (auto simp: server_interrupt_def srv_Shutdown_def srv_Close_def emit_def Let_def
      split: option.splits if_splits)

lemma termination_interrupt_Cont:
  "termination_interrupt e w = Cont w' \<Longrightarrow> upg w' = upg w \<and> (\<exists>tl. trace w' = trace w @ tl)"
  by (auto simp: termination_interrupt_def emit_def split: if_splits)

lemma server_wait_Some:
  "server_execute_wait w = Some (e, w') \<Longrightarrow> w' = w"
  by (auto simp: server_execute_wait_def split: option.splits)

lemma termination_wait_Some:
  "termination_execute_wait w = Some (e, w') \<Longrightarrow>
   upg w' = upg w \<and> (\<exists>tl. trace w' = trace w @ tl)"
  by (auto simp: termination_execute_wait_def log_signal_def emit_def
      split: list.splits signal.splits if_splits)

lemma ready_wait_Some:
  "ready_execute_wait w = Some (e, w') \<Longrightarrow> w' = w"
  by (auto simp: ready_execute_wait_def split: if_splits)

lemma since_refl: "since w w"
  by (simp add: since_def)

lemma after_Stop_call_Stop: "since w0 w \<Longrightarrow> after_Stop w0 (call_Stop w)"
  using call_Stop_facts[of w] by (auto simp: after_Stop_def since_def)

lemma since_server_interrupt:
  "server_interrupt e w = Cont w' \<Longrightarrow> since w0 w \<Longrightarrow> since w0 w'"
  using server_interrupt_Cont[of e w w'] by (auto simp: since_def)

lemma since_termination_interrupt:
  "termination_interrupt e w = Cont w' \<Longrightarrow> since w0 w \<Longrightarrow> since w0 w'"
  using termination_interrupt_Cont[of e w w'] by (auto simp: since_def)

lemma after_Stop_server_interrupt:
  "server_interrupt e w = Cont w' \<Longrightarrow> after_Stop w0 w \<Longrightarrow> after_Stop w0 w'"
  using server_interrupt_Cont[of e w w'] by (auto simp: after_Stop_def)

lemma after_Stop_termination_interrupt:
  "termination_interrupt e w = Cont w' \<Longrightarrow> after_Stop w0 w \<Longrightarrow> after_Stop w0 w'"
  using termination_interrupt_Cont[of e w w'] by (auto simp: after_Stop_def)

lemma after_Stop_termination_wait:
  "termination_execute_wait w = Some (e, w') \<Longrightarrow> after_Stop w0 w \<Longrightarrow> after_Stop w0 w'"
  using termination_wait_Some[of w e w'] by (auto simp: after_Stop_def)

lemma interrupts_after_Stop:
  assumes "interrupt_all (in_order ord (enumerate 0 run_group)) e s = (js, Cont s')"
    and "since w0 s"
  shows "after_Stop w0 s'"
proof (cases ord)
  case Registration
  with assms(1) obtain sa sb where
    "server_interrupt e s = Cont sa" "termination_interrupt e sa = Cont sb" "s' = call_Stop sb"
    by (auto simp: run_group_eq enumerate3 in_order_def server_actor_def termination_actor_def
        ready_exit_actor_def ready_interrupt_def split: step.splits prod.splits)
  then show ?thesis
    using assms(2) since_server_interrupt since_termination_interrupt after_Stop_call_Stop
    by blast
next
  case Reverse
  with assms(1) obtain sb where
    "termination_interrupt e (call_Stop s) = Cont sb" "server_interrupt e sb = Cont s'"
    by (auto simp: run_group_eq enumerate3 in_order_def server_actor_def termination_actor_def
        ready_exit_actor_def ready_interrupt_def split: step.splits prod.splits)
  then show ?thesis
    using assms(2) after_Stop_server_interrupt after_Stop_termination_interrupt
      after_Stop_call_Stop
    by blast
qed

lemma join_after_Stop:
  assumes "join_all (enumerate 0 run_group) k s = Some s'" and "after_Stop w0 s"
  shows "after_Stop w0 s'"
proof -
  have a: "\<And>e w w'. server_execute_wait w = Some (e, w') \<Longrightarrow> after_Stop w0 w \<Longrightarrow> after_Stop w0 w'"
    using server_wait_Some by blast
  have c: "\<And>e w w'. ready_execute_wait w = Some (e, w') \<Longrightarrow> after_Stop w0 w \<Longrightarrow> after_Stop w0 w'"
    using ready_wait_Some by blast
  note b = after_Stop_termination_wait
  from assms show ?thesis
    by (auto simp: run_group_eq enumerate3 server_actor_def termination_actor_def
        ready_exit_actor_def split: if_splits option.splits prod.splits
        dest: a b c)
qed

lemma start_since: "since w (fold execute_start run_group w)"
  by (simp add: since_def run_group_eq actor_defs)

lemma wait_since:
  assumes "k < length run_group" and "execute_wait (run_group ! k) s = Some (e, s')"
    and "since w0 s"
  shows "since w0 s'"
proof -
  from assms(1) have "k = 0 \<or> k = 1 \<or> k = 2" by (auto simp: run_group_eq)
  then show ?thesis
    using assms(2,3) server_wait_Some[of s e s'] ready_wait_Some[of s e s']
      termination_wait_Some[of s e s']
    by (auto simp: run_group_eq server_actor_def termination_actor_def ready_exit_actor_def
        since_def)
qed

lemma run_group_Returned_after_Stop:
  assumes "outcome (group_Run ord run_group k w) = Returned e"
  shows "after_Stop w (final (group_Run ord run_group k w))"
proof -
  have ne: "run_group \<noteq> []" by (simp add: run_group_eq)
  from assms ne obtain s2 js s3 s4 where
    k: "k < length run_group" and
    t: "execute_wait (run_group ! k) (fold execute_start run_group w) = Some (e, s2)" and
    i: "interrupt_all (in_order ord (enumerate 0 run_group)) e s2 = (js, Cont s3)" and
    j: "join_all (enumerate 0 run_group) k s3 = Some s4" and
    f: "final (group_Run ord run_group k w) = s4"
    by (auto simp: group_Run_def Let_def split: if_splits option.splits prod.splits step.splits)
  from wait_since[OF k t start_since] have "since w s2" .
  from join_after_Stop[OF j interrupts_after_Stop[OF i this]] f show ?thesis by simp
qed

lemma Run_Returns_cases:
  assumes "ending (Run ord k pidfile w) = Returns"
  shows "\<exists>W. since w W \<and> outcome (group_Run ord run_group k W) = Returned None \<and>
           world_after (Run ord k pidfile w) =
             call_Stop (close_ch (final (group_Run ord run_group k W)))"
proof (cases "new_result w")
  case (Inl err)
  with assms show ?thesis by (simp add: Run_def emit_def Let_def)
next
  case (Inr u)
  show ?thesis
  proof (cases "listen_result u")
    case (Some err)
    with Inr assms show ?thesis by (simp add: Run_def emit_def Let_def)
  next
    case None
    let ?W = "at_group pidfile u w"
    from assms Inr None
    have "outcome (group_Run ord run_group k ?W) = Returned None \<and>
          world_after (Run ord k pidfile w) =
            call_Stop (close_ch (final (group_Run ord run_group k ?W)))"
      by (simp add: Run_at_group Let_def split: outcome.splits option.splits)
    moreover have "since w ?W" by (simp add: since_def at_group_def)
    ultimately show ?thesis by blast
  qed
qed

text \<open>
  C9.  A second \<^verbatim>\<open>Stop\<close> has no effect and leaves the coordinator as it is; a \<^verbatim>\<open>Stop\<close>
  after the exit signal has fired does not fire it again; the second call through
  \<open>call_Stop\<close> adds the call to the trace and nothing else.  Whenever \<open>Run\<close> returns, the
  interrupt of the readiness/exit actor has called \<^verbatim>\<open>Stop\<close> before, and the deferred
  \<^verbatim>\<open>Stop\<close>, after the deferred \<^verbatim>\<open>close(ch)\<close>, is the last event: it has no effect.
\<close>

theorem Stop_idempotent:
  "upg_Stop (snd (upg_Stop u)) = ([], snd (upg_Stop u)) \<and>
   Fire_exit \<notin> set (fst (upg_Stop (u\<lparr>exit_fired := True\<rparr>))) \<and>
   call_Stop (call_Stop w) = (call_Stop w)\<lparr>trace := trace (call_Stop w) @ [Call_Stop]\<rparr> \<and>
   (ending (Run ord k pidfile w) = Returns \<longrightarrow>
      (\<exists>tl. trace (world_after (Run ord k pidfile w)) = trace w @ tl @ [Close_ch, Call_Stop] \<and>
            Call_Stop \<in> set tl))"
proof -
  have "\<exists>tl. trace (world_after (Run ord k pidfile w)) = trace w @ tl @ [Close_ch, Call_Stop] \<and>
            Call_Stop \<in> set tl"
    if "ending (Run ord k pidfile w) = Returns"
  proof -
    from Run_Returns_cases[OF that] obtain W where
      W: "since w W" "outcome (group_Run ord run_group k W) = Returned None"
      "world_after (Run ord k pidfile w) = call_Stop (close_ch (final (group_Run ord run_group k W)))"
      by blast
    let ?f = "final (group_Run ord run_group k W)"
    from run_group_Returned_after_Stop[OF W(2)] have a: "after_Stop W ?f" .
    then have st: "stopped (upg (close_ch ?f))"
      by (simp add: after_Stop_def close_ch_def emit_def)
    have "trace (call_Stop (close_ch ?f)) = trace ?f @ [Close_ch, Call_Stop]"
      using upg_Stop_stopped[OF st] by (simp add: call_Stop_def close_ch_def emit_def)
    with a W(1,3) show ?thesis
      by (auto simp: after_Stop_def since_def)
  qed
  then show ?thesis
    by (simp add: upg_Stop_twice call_Stop_twice upg_Stop_def)
qed

text \<open>
  The theorem at a coordinator that holds its marker file, and at the run of \<open>Run\<close> in
  which a \<^verbatim>\<open>SIGTERM\<close> arrives.
\<close>

theorem Stop_idempotent_witness:
  "upg_Stop (snd (upg_Stop upg0)) = ([], snd (upg_Stop upg0)) \<and>
   fst (upg_Stop upg0) = [Release_marker, Fire_exit] \<and>
   ending (Run Registration 1 ''graceful.pid'' sigterm_world) = Returns \<and>
   (\<exists>tl. trace (world_after (Run Registration 1 ''graceful.pid'' sigterm_world)) =
           trace sigterm_world @ tl @ [Close_ch, Call_Stop] \<and> Call_Stop \<in> set tl)"
proof -
  have r: "ending (Run Registration 1 ''graceful.pid'' sigterm_world) = Returns"
    by (simp add: Run_def group_Add_def group_Run_def enumerate3 in_order_def actor_defs
        world_defs Let_def)
  have e: "fst (upg_Stop upg0) = [Release_marker, Fire_exit]"
    by (simp add: upg_Stop_def upg0_def)
  from Stop_idempotent[of upg0 sigterm_world Registration 1 "''graceful.pid''"] r e
  show ?thesis by simp
qed

section \<open>The group of Run: when it returns\<close>

text \<open>
  The group of \<open>Run\<close> returns only \<^verbatim>\<open>nil\<close>: a trigger error that is not \<^verbatim>\<open>nil\<close> ends
  the process in the interrupt of the server actor.  With a \<^verbatim>\<open>nil\<close> trigger error it
  returns, after each of the three interrupts has been invoked once, provided
  \<^verbatim>\<open>Shutdown\<close> returns.
\<close>

lemma interrupts_three:
  "in_order ord (enumerate 0 run_group) =
     (case ord of
        Registration \<Rightarrow> [(0, server_actor), (Suc 0, termination_actor), (2, ready_exit_actor)]
      | Reverse \<Rightarrow> [(2, ready_exit_actor), (Suc 0, termination_actor), (0, server_actor)])"
  by (cases ord) (simp_all add: run_group_eq enumerate3 in_order_def)

lemma server_interrupt_Some: "server_interrupt (Some x) w \<noteq> Cont w'"
  by (simp add: server_interrupt_def)

lemma run_group_Returned_nil:
  assumes "outcome (group_Run ord run_group k w) = Returned e"
  shows "e = None"
proof (rule ccontr)
  assume "e \<noteq> None"
  then obtain x where x: "e = Some x" by auto
  have ne: "run_group \<noteq> []" by (simp add: run_group_eq)
  from assms ne obtain s2 js s3 where
    i: "interrupt_all (in_order ord (enumerate 0 run_group)) e s2 = (js, Cont s3)"
    by (auto simp: group_Run_def Let_def split: if_splits option.splits prod.splits step.splits)
  then show False
    unfolding interrupts_three x
    by (cases ord)
       (auto simp: server_actor_def termination_actor_def ready_exit_actor_def
          server_interrupt_def ready_interrupt_def
          split: step.splits prod.splits)
qed

lemma server_interrupt_None_Cont:
  assumes "drains w"
  shows "\<exists>w'. server_interrupt None w = Cont w' \<and> inShutdown (server w') \<and>
           cancelInterrupt w' = cancelInterrupt w \<and> upg w' = upg w"
  using assms
  by (auto simp: drains_def server_interrupt_def shutdown_deadline_def srv_Shutdown_def
      srv_Close_def emit_def Let_def split: option.splits)

lemma termination_interrupt_open:
  assumes "\<not> cancelInterrupt w"
  shows "\<exists>w'. termination_interrupt e w = Cont w' \<and> cancelInterrupt w' \<and>
           server w' = server w \<and> upg w' = upg w \<and> ShutdownTimeout w' = ShutdownTimeout w"
  using assms by (simp add: termination_interrupt_def emit_def)

lemma call_Stop_fields:
  "exit_fired (upg (call_Stop w)) \<and> server (call_Stop w) = server w \<and>
   cancelInterrupt (call_Stop w) = cancelInterrupt w \<and>
   ShutdownTimeout (call_Stop w) = ShutdownTimeout w"
  by (simp add: call_Stop_def upg_Stop_def)

lemma interrupts_release:
  assumes "drains s" and "\<not> cancelInterrupt s"
  shows "\<exists>s'. interrupt_all (in_order ord (enumerate 0 run_group)) None s =
                (in_order ord [0, Suc 0, 2], Cont s') \<and> released s'"
proof (cases ord)
  case Registration
  from server_interrupt_None_Cont[OF assms(1)] obtain sa where
    sa: "server_interrupt None s = Cont sa" "inShutdown (server sa)"
    "cancelInterrupt sa = cancelInterrupt s" "upg sa = upg s" by blast
  with assms(2) have "\<not> cancelInterrupt sa" by simp
  from termination_interrupt_open[OF this, of None] obtain sb where
    sb: "termination_interrupt None sa = Cont sb" "cancelInterrupt sb" "server sb = server sa"
    by blast
  have "released (call_Stop sb)"
    using sa(2) sb(2,3) call_Stop_fields[of sb] by (simp add: released_def)
  with sa(1) sb(1) Registration show ?thesis
    unfolding interrupts_three
    by (simp add: in_order_def server_actor_def termination_actor_def ready_exit_actor_def
        ready_interrupt_def)
next
  case Reverse
  let ?sa = "call_Stop s"
  have a: "exit_fired (upg ?sa)" "\<not> cancelInterrupt ?sa" "drains ?sa"
    using assms call_Stop_fields[of s] by (simp_all add: drains_def)
  from termination_interrupt_open[OF a(2), of None] obtain sb where
    sb: "termination_interrupt None ?sa = Cont sb" "cancelInterrupt sb" "server sb = server ?sa"
    "upg sb = upg ?sa" "ShutdownTimeout sb = ShutdownTimeout ?sa" by blast
  with a(3) have "drains sb" by (simp add: drains_def)
  from server_interrupt_None_Cont[OF this] obtain sc where
    sc: "server_interrupt None sb = Cont sc" "inShutdown (server sc)"
    "cancelInterrupt sc = cancelInterrupt sb" "upg sc = upg sb" by blast
  have "released sc"
    using sc(2,3,4) sb(2,4) a(1) by (simp add: released_def)
  with sb(1) sc(1) Reverse show ?thesis
    unfolding interrupts_three
    by (simp add: in_order_def server_actor_def termination_actor_def ready_exit_actor_def
        ready_interrupt_def)
qed

lemma server_wait_released:
  "released w \<Longrightarrow> \<exists>e. server_execute_wait w = Some (e, w)"
  by (simp add: released_def server_execute_wait_def srv_Serve_def)

lemma termination_wait_released:
  "released w \<Longrightarrow> \<exists>e w'. termination_execute_wait w = Some (e, w') \<and> released w'"
  by (auto simp: released_def termination_execute_wait_def log_signal_def emit_def
      split: list.splits signal.splits)

lemma ready_wait_released:
  "released w \<Longrightarrow> \<exists>e. ready_execute_wait w = Some (e, w)"
  by (simp add: released_def ready_execute_wait_def)

lemma join_released:
  assumes "released s"
  shows "\<exists>s'. join_all (enumerate 0 run_group) k s = Some s'"
proof -
  from server_wait_released[OF assms] obtain e0 where
    w0: "server_execute_wait s = Some (e0, s)" by blast
  from termination_wait_released[OF assms] obtain e1 s1 where
    w1: "termination_execute_wait s = Some (e1, s1)" "released s1" by blast
  from ready_wait_released[OF assms] obtain e2 where
    w2: "ready_execute_wait s = Some (e2, s)" by blast
  from ready_wait_released[OF w1(2)] obtain e3 where
    w3: "ready_execute_wait s1 = Some (e3, s1)" by blast
  show ?thesis
    using w0 w1(1) w2 w3
    by (simp add: run_group_eq enumerate3 server_actor_def termination_actor_def
        ready_exit_actor_def)
qed

lemma start_fields:
  "ShutdownTimeout (fold execute_start run_group w) = ShutdownTimeout w \<and>
   server (fold execute_start run_group w) = server w \<and>
   cancelInterrupt (fold execute_start run_group w) = cancelInterrupt w"
  by (simp add: run_group_eq actor_defs)

lemma wait_fields:
  assumes "k < length run_group" and "execute_wait (run_group ! k) s = Some (e, s')"
  shows "ShutdownTimeout s' = ShutdownTimeout s \<and> server s' = server s \<and>
         cancelInterrupt s' = cancelInterrupt s"
proof -
  from assms(1) have "k = 0 \<or> k = 1 \<or> k = 2" by (auto simp: run_group_eq)
  then show ?thesis
    using assms(2)
    by (auto simp: run_group_eq server_actor_def termination_actor_def ready_exit_actor_def
        server_execute_wait_def termination_execute_wait_def ready_execute_wait_def
        log_signal_def emit_def split: option.splits list.splits signal.splits if_splits)
qed

lemma run_group_nil_trigger:
  assumes k: "k < length run_group"
    and t: "execute_wait (run_group ! k) (fold execute_start run_group w) = Some (None, s2)"
    and d: "drains w" and c: "\<not> cancelInterrupt w"
  shows "outcome (group_Run ord run_group k w) = Returned None \<and>
         interrupted (group_Run ord run_group k w) = in_order ord [0, Suc 0, 2]"
proof -
  have ne: "run_group \<noteq> []" by (simp add: run_group_eq)
  from wait_fields[OF k t] start_fields[of w] d c
  have "drains s2" "\<not> cancelInterrupt s2" by (simp_all add: drains_def)
  from interrupts_release[OF this, of ord] obtain s3 where
    i: "interrupt_all (in_order ord (enumerate 0 run_group)) None s2 =
          (in_order ord [0, Suc 0, 2], Cont s3)" and r: "released s3" by blast
  from join_released[OF r, of k] obtain s4 where
    j: "join_all (enumerate 0 run_group) k s3 = Some s4" by blast
  from group_Run_returns[OF ne k t i j] show ?thesis
    by (simp add: run_group_eq upt_rec numeral_2_eq_2)
qed

lemma Run_nil_trigger_Returns:
  assumes "new_result w = Inr u" and "listen_result u = None"
    and "k < length run_group"
    and "execute_wait (run_group ! k) (fold execute_start run_group (at_group pidfile u w))
           = Some (None, s2)"
    and "drains w"
  shows "ending (Run ord k pidfile w) = Returns"
proof -
  have "drains (at_group pidfile u w)" "\<not> cancelInterrupt (at_group pidfile u w)"
    using assms(5) by (simp_all add: drains_def at_group_def)
  from run_group_nil_trigger[OF assms(3,4) this, of ord] show ?thesis
    by (simp add: Run_at_group[OF assms(1,2)] Let_def)
qed

lemma Run_Returns_nil:
  assumes "group_result (Run ord k pidfile w) = Some r"
  shows "outcome r \<noteq> Returned (Some err)"
  using assms Run_group_result_cases[of ord k pidfile w] run_group_Returned_nil
  by auto

end
